theory Spec2Isabelle
  imports Main
begin

section \<open>JavaScript values\<close>

text \<open>
  The import pipeline of the RefWire command line client works on the result of
  \<^verbatim>\<open>JSON.parse\<close>. A parsed value is a \<open>json\<close>. An object is the list of its own
  properties in the order \<^verbatim>\<open>for (const key in item)\<close> enumerates them; the keys of a
  parsed object are pairwise different, and reading a key twice gives the same value,
  which \<open>map_of\<close> does on any list. A number \<open>JNum n\<close> stands for the JavaScript
  number of that integer value, for \<open>n\<close> of magnitude below \<open>2^53\<close>: these are
  numbers of their own and print in plain decimal digits. Numbers with a fraction and
  numbers beyond that bound are outside the model, and what is proved of the printed form
  of a number is stated within the bound. Strings are lists of characters, one per code
  unit.
\<close>

datatype json =
    JNull
  | JBool bool
  | JNum int
  | JStr string
  | JArr "json list"
  | JObj "(string \<times> json) list"

type_synonym jsobject = "(string \<times> json) list"

text \<open>
  What a property read \<^verbatim>\<open>item[key]\<close> on a plain object can return: an own value,
  \<^verbatim>\<open>undefined\<close>, or a member inherited from \<^verbatim>\<open>Object.prototype\<close>: one of its
  functions, or (for the key \<^verbatim>\<open>__proto__\<close>) the prototype object itself.
\<close>

datatype jsval = Undefined | Val json | ProtoFunction string | ObjectPrototype

definition object_prototype_functions :: "string list" where
  "object_prototype_functions =
     [''constructor'', ''__defineGetter__'', ''__defineSetter__'', ''hasOwnProperty'',
      ''__lookupGetter__'', ''__lookupSetter__'', ''isPrototypeOf'',
      ''propertyIsEnumerable'', ''toString'', ''valueOf'', ''toLocaleString'']"

text \<open>\<^verbatim>\<open>Object.hasOwnProperty.call(item, key)\<close>\<close>

definition has_own :: "(string \<times> 'v) list \<Rightarrow> string \<Rightarrow> bool" where
  "has_own obj key = (key \<in> set (map fst obj))"

text \<open>\<^verbatim>\<open>key in {}\<close>: the names every plain object inherits.\<close>

definition inherited_key :: "string \<Rightarrow> bool" where
  "inherited_key key = (key = ''__proto__'' \<or> key \<in> set object_prototype_functions)"

text \<open>\<^verbatim>\<open>item[key]\<close> on a parsed object.\<close>

definition js_get :: "jsobject \<Rightarrow> string \<Rightarrow> jsval" where
  "js_get item key =
     (case map_of item key of
        Some v \<Rightarrow> Val v
      | None \<Rightarrow>
          if key = ''__proto__'' then ObjectPrototype
          else if key \<in> set object_prototype_functions then ProtoFunction key
          else Undefined)"

text \<open>
  \<^verbatim>\<open>obj[key] = v\<close> on an object created by the literal \<^verbatim>\<open>{}\<close>, as far as its own
  properties go: a new key is added behind the others, a key already there keeps its
  place, and the key \<^verbatim>\<open>__proto__\<close> reaches the setter inherited from
  \<^verbatim>\<open>Object.prototype\<close>, which creates no own property. (The setter is reached as
  long as the key is written once per object, which the loops below do on fields of
  pairwise different names, as discovery makes them.) The order of the list is the order
  of creation; the properties proved read the objects as mappings.
\<close>

fun put :: "string \<Rightarrow> 'v \<Rightarrow> (string \<times> 'v) list \<Rightarrow> (string \<times> 'v) list" where
  "put key v [] = [(key, v)]"
| "put key v (p # ps) = (if fst p = key then (key, v) # ps else p # put key v ps)"

definition js_set :: "(string \<times> 'v) list \<Rightarrow> string \<Rightarrow> 'v \<Rightarrow> (string \<times> 'v) list" where
  "js_set obj key v = (if key = ''__proto__'' then obj else put key v obj)"

subsection \<open>Conversion to string\<close>

fun nat_to_string :: "nat \<Rightarrow> string" where
  "nat_to_string n =
     (if n < 10 then [''0123456789'' ! n]
      else nat_to_string (n div 10) @ [''0123456789'' ! (n mod 10)])"

declare nat_to_string.simps [simp del]

text \<open>
  The decimal numeral of an integer, which is \<^verbatim>\<open>String(n)\<close> and \<^verbatim>\<open>n.toString()\<close> for
  the numbers of the model.
\<close>

definition int_to_string :: "int \<Rightarrow> string" where
  "int_to_string i =
     (if i < 0 then CHR ''-'' # nat_to_string (nat (- i)) else nat_to_string (nat i))"

definition bool_to_string :: "bool \<Rightarrow> string" where
  "bool_to_string b = (if b then ''true'' else ''false'')"

text \<open>\<^verbatim>\<open>Array.prototype.join\<close> on strings.\<close>

fun join :: "string \<Rightarrow> string list \<Rightarrow> string" where
  "join sep [] = []"
| "join sep [x] = x"
| "join sep (x # y # ys) = x @ sep @ join sep (y # ys)"

text \<open>
  \<^verbatim>\<open>String(value)\<close> on a parsed value; \<open>None\<close> is the \<^verbatim>\<open>TypeError\<close> that the
  conversion throws. An array is its elements joined by commas, \<^verbatim>\<open>null\<close> elements
  giving the empty string. An object is converted by its \<^verbatim>\<open>toString\<close> member: the
  inherited one answers \<^verbatim>\<open>[object Object]\<close>; an own property of that name is a
  parsed value, never a function, and the fallback \<^verbatim>\<open>valueOf\<close> gives no primitive,
  so the conversion throws.
\<close>

fun js_String_json :: "json \<Rightarrow> string option"
  and js_join_elems :: "json list \<Rightarrow> string list option" where
  "js_String_json JNull = Some ''null''"
| "js_String_json (JBool b) = Some (bool_to_string b)"
| "js_String_json (JNum n) = Some (int_to_string n)"
| "js_String_json (JStr s) = Some s"
| "js_String_json (JArr xs) = map_option (join '','') (js_join_elems xs)"
| "js_String_json (JObj kvs) =
     (if has_own kvs ''toString'' then None else Some ''[object Object]'')"
| "js_join_elems [] = Some []"
| "js_join_elems (x # xs) =
     (case (if x = JNull then Some [] else js_String_json x) of
        None \<Rightarrow> None
      | Some s \<Rightarrow> map_option ((#) s) (js_join_elems xs))"

text \<open>The source text V8 prints for a built-in function.\<close>

definition function_source :: "string \<Rightarrow> string" where
  "function_source key =
     ''function '' @ (if key = ''constructor'' then ''Object'' else key)
       @ ''() { [native code] }''"

fun js_String :: "jsval \<Rightarrow> string option" where
  "js_String Undefined = Some ''undefined''"
| "js_String (Val v) = js_String_json v"
| "js_String (ProtoFunction key) = Some (function_source key)"
| "js_String ObjectPrototype = Some ''[object Object]''"

section \<open>The host\<close>

text \<open>
  Two built-ins of the runtime are taken as they are: \<^verbatim>\<open>JSON.parse\<close>, with \<open>None\<close>
  for a \<^verbatim>\<open>SyntaxError\<close>, and the test \<^verbatim>\<open>!isNaN(Date.parse(s))\<close>, whose answer
  outside the ISO formats is left to the implementation by the language standard.
\<close>

record host =
  JSON_parse :: "string \<Rightarrow> json option"
  Date_parse_ok :: "string \<Rightarrow> bool"

section \<open>Type inference and samples (jsonProcessor)\<close>

datatype data_type = Text | Date | Number | Boolean | List | Unknown

text \<open>The regular expression \<^verbatim>\<open>/\d{4}-\d{2}-\d{2}/\<close>, tested anywhere in the string.\<close>

definition is_digit :: "char \<Rightarrow> bool" where
  "is_digit c = (c \<in> set ''0123456789'')"

fun date_pattern_here :: "string \<Rightarrow> bool" where
  "date_pattern_here (y1 # y2 # y3 # y4 # d1 # m1 # m2 # d2 # t1 # t2 # rest) =
     (is_digit y1 \<and> is_digit y2 \<and> is_digit y3 \<and> is_digit y4 \<and> d1 = CHR ''-'' \<and>
      is_digit m1 \<and> is_digit m2 \<and> d2 = CHR ''-'' \<and> is_digit t1 \<and> is_digit t2)"
| "date_pattern_here _ = False"

fun date_regex_test :: "string \<Rightarrow> bool" where
  "date_regex_test [] = False"
| "date_regex_test (c # cs) = (date_pattern_here (c # cs) \<or> date_regex_test cs)"

text \<open>
  \<open>determineDataType\<close>: one equation per branch of the \<^verbatim>\<open>switch (typeof value)\<close>.
  \<^verbatim>\<open>undefined\<close> and functions reach the \<^verbatim>\<open>default\<close> branch; \<^verbatim>\<open>null\<close>, arrays,
  objects and the prototype object have type \<^verbatim>\<open>'object'\<close>.
\<close>

fun determineDataType :: "host \<Rightarrow> jsval \<Rightarrow> data_type" where
  "determineDataType h (Val (JStr s)) =
     (if date_regex_test s \<and> Date_parse_ok h s then Date else Text)"
| "determineDataType h (Val (JNum n)) = Number"
| "determineDataType h (Val (JBool b)) = Boolean"
| "determineDataType h (Val JNull) = Unknown"
| "determineDataType h (Val (JArr xs)) = List"
| "determineDataType h (Val (JObj kvs)) = Unknown"
| "determineDataType h ObjectPrototype = Unknown"
| "determineDataType h Undefined = Unknown"
| "determineDataType h (ProtoFunction key) = Unknown"

text \<open>
  \<open>getSampleValue\<close>; \<open>None\<close> is the result \<^verbatim>\<open>undefined\<close>. A function reaches the
  \<^verbatim>\<open>default\<close> branch, \<^verbatim>\<open>String(value).substring(0, 30)\<close>.
\<close>

fun getSampleValue :: "jsval \<Rightarrow> string option" where
  "getSampleValue (Val JNull) = Some ''null''"
| "getSampleValue Undefined = None"
| "getSampleValue (Val (JStr s)) = Some (if length s > 30 then take 27 s @ ''...'' else s)"
| "getSampleValue (Val (JNum n)) = Some (int_to_string n)"
| "getSampleValue (Val (JBool b)) = Some (bool_to_string b)"
| "getSampleValue (Val (JArr xs)) = Some ''[...]''"
| "getSampleValue (Val (JObj kvs)) = Some ''{...}''"
| "getSampleValue ObjectPrototype = Some ''{...}''"
| "getSampleValue (ProtoFunction key) = Some (take 30 (function_source key))"

section \<open>Field discovery (validateAndProcessJson)\<close>

record field =
  name :: string
  dataType :: data_type
  sampleValues :: "string list"
  isId :: bool
  isName :: bool
  isIncluded :: bool

text \<open>
  What is thrown. \<open>SyntaxError\<close>, \<open>ReferenceError\<close> and \<open>TypeError\<close> are thrown by
  the runtime; \<open>FieldNotFoundError m\<close> and \<open>ResolutionError m\<close> are the errors the
  pull action throws with the message \<open>m\<close>, and \<open>WizardCancelled m\<close> those of the
  wizard.
\<close>

datatype error =
    SyntaxError
  | ReferenceError
  | FieldNotFoundError string
  | ResolutionError string
  | WizardCancelled string
  | TypeError

text \<open>The state object of both commands; \<open>state_fields\<close> is its property \<^verbatim>\<open>fields\<close>.\<close>

record wizard_state =
  jsonContent :: "string option"
  parsedJson :: "jsobject list option"
  state_fields :: "field list"
  itemCount :: nat
  datasetId :: string
  datasetName :: string
  datasetDescription :: string
  specifiedIdField :: "string option"
  specifiedNameField :: "string option"

text \<open>
  \<open>fieldsDict\<close> is a \<^verbatim>\<open>Map\<close> from key to field and keeps the order of insertion: a
  list of fields, at most one per name. \<open>dict_has\<close> is \<^verbatim>\<open>fieldsDict.has(key)\<close>,
  \<open>dict_modify\<close> changes the field that \<^verbatim>\<open>fieldsDict.get(key)\<close> returns. A
  \<^verbatim>\<open>Set\<close> of samples is a list without repetition, \<open>set_add\<close> its \<^verbatim>\<open>add\<close>.
\<close>

definition dict_has :: "field list \<Rightarrow> string \<Rightarrow> bool" where
  "dict_has d key = (key \<in> set (map name d))"

fun dict_modify :: "string \<Rightarrow> (field \<Rightarrow> field) \<Rightarrow> field list \<Rightarrow> field list" where
  "dict_modify key g [] = []"
| "dict_modify key g (f # fs) = (if name f = key then g f # fs else f # dict_modify key g fs)"

definition set_add :: "'a \<Rightarrow> 'a list \<Rightarrow> 'a list" where
  "set_add x xs = (if x \<in> set xs then xs else xs @ [x])"

definition new_field :: "host \<Rightarrow> string \<Rightarrow> jsval \<Rightarrow> field" where
  "new_field h key v =
     \<lparr>name = key, dataType = determineDataType h v, sampleValues = [],
      isId = False, isName = False, isIncluded = True\<rparr>"

text \<open>Collect up to 3 unique, non-empty sample values.\<close>

definition collect_sample :: "jsval \<Rightarrow> field \<Rightarrow> field" where
  "collect_sample v f =
     (if length (sampleValues f) < 3 then
        (case getSampleValue v of
           None \<Rightarrow> f
         | Some sample \<Rightarrow>
             if sample \<noteq> [] then f\<lparr>sampleValues := set_add sample (sampleValues f)\<rparr>
             else f)
      else f)"

text \<open>The type consistency check: only \<open>Unknown\<close> is ever replaced.\<close>

definition upgrade_type :: "host \<Rightarrow> jsval \<Rightarrow> field \<Rightarrow> field" where
  "upgrade_type h v f =
     (let currentType = determineDataType h v
      in if dataType f = Unknown \<and> currentType \<noteq> Unknown
         then f\<lparr>dataType := currentType\<rparr> else f)"

text \<open>The body of the loop over the keys of one item.\<close>

definition process_key :: "host \<Rightarrow> jsobject \<Rightarrow> string \<Rightarrow> field list \<Rightarrow> field list" where
  "process_key h item key d =
     (let v = js_get item key;
          d1 = (if \<not> dict_has d key then d @ [new_field h key v] else d)
      in dict_modify key (\<lambda>f. upgrade_type h v (collect_sample v f)) d1)"

definition process_item :: "host \<Rightarrow> jsobject \<Rightarrow> field list \<Rightarrow> field list" where
  "process_item h item d = fold (process_key h item) (map fst item) d"

text \<open>
  The processor reports every failure by \<^verbatim>\<open>printError(message); return false\<close>. The
  module neither imports nor defines \<^verbatim>\<open>printError\<close>, so the call throws a
  \<^verbatim>\<open>ReferenceError\<close>, nothing is printed and the \<^verbatim>\<open>return false\<close> behind it is never
  reached.
\<close>

definition printError :: "string \<Rightarrow> error + 'a" where
  "printError message = Inl ReferenceError"

text \<open>
  The loop over the parsed array, from index \<open>i\<close> on: at an element that is not a plain
  object the function reports the index and ends.
\<close>

fun discover :: "host \<Rightarrow> json list \<Rightarrow> nat \<Rightarrow> field list \<Rightarrow> error + field list" where
  "discover h [] i d = Inr d"
| "discover h (JObj item # rest) i d = discover h rest (Suc i) (process_item h item d)"
| "discover h (other # rest) i d =
     printError (''Validation Error: Item at index '' @ nat_to_string i
                   @ '' is not a valid JSON object.'')"

fun the_object :: "json \<Rightarrow> jsobject" where
  "the_object (JObj item) = item"
| "the_object other = []"

text \<open>
  The \<^verbatim>\<open>try\<close> block of \<open>validateAndProcessJson\<close>. A content that does not parse
  throws a \<^verbatim>\<open>SyntaxError\<close>. When the block reaches its end every element of the array
  is an object, and the state holds the array, its length and the fields.
\<close>

definition try_block :: "host \<Rightarrow> wizard_state \<Rightarrow> string \<Rightarrow> error + wizard_state" where
  "try_block h st content =
     (case JSON_parse h content of
        None \<Rightarrow> Inl SyntaxError
      | Some (JArr parsed) \<Rightarrow>
          if parsed = [] then printError ''Validation Error: JSON array cannot be empty.''
          else
            (case discover h parsed 0 [] of
               Inl e \<Rightarrow> Inl e
             | Inr fieldsDict \<Rightarrow>
                 if fieldsDict = []
                 then printError
                        ''Validation Error: No fields found across all items in the JSON array.''
                 else Inr (st\<lparr>parsedJson := Some (map the_object parsed),
                               itemCount := length parsed,
                               state_fields := fieldsDict\<rparr>))
      | Some other \<Rightarrow> printError ''Validation Error: Input must be a JSON array.'')"

text \<open>
  \<open>validateAndProcessJson\<close>: \<open>Inr\<close> is the result \<^verbatim>\<open>true\<close> with the state as the
  function leaves it. The \<^verbatim>\<open>catch\<close> clause receives whatever the block throws, the
  \<^verbatim>\<open>ReferenceError\<close> of a report as well, and reports "JSON Parsing Error: " with the
  message of what it caught, which throws again.
\<close>

definition validateAndProcessJson :: "host \<Rightarrow> wizard_state \<Rightarrow> error + wizard_state" where
  "validateAndProcessJson h st =
     (case jsonContent st of
        None \<Rightarrow> printError ''No JSON content provided or downloaded.''
      | Some content \<Rightarrow>
          if content = [] then printError ''No JSON content provided or downloaded.''
          else
            (case try_block h st content of
               Inl e \<Rightarrow> printError ''JSON Parsing Error: ''
             | Inr st' \<Rightarrow> Inr st'))"

text \<open>
  Both callers: \<^verbatim>\<open>if (!validateAndProcessJson(state)) throw new Error(...)\<close>. The
  function returns \<^verbatim>\<open>true\<close> or throws, so the callers never throw their own error
  "JSON validation failed. Cannot proceed."; what the function throws passes through
  them to the handler of the command.
\<close>

definition validated :: "host \<Rightarrow> wizard_state \<Rightarrow> error + wizard_state" where
  "validated h st =
     (case validateAndProcessJson h st of
        Inl e \<Rightarrow> Inl e
      | Inr st' \<Rightarrow> Inr st')"

section \<open>ID and Name field resolution (dataset pull)\<close>

definition quote :: string where
  "quote = [CHR 0x27]"

text \<open>
  \<^verbatim>\<open>if (wizardState.specifiedIdField)\<close>: an option that was not given is
  \<^verbatim>\<open>undefined\<close>, and the empty string is falsy as well.
\<close>

fun truthy :: "string option \<Rightarrow> bool" where
  "truthy None = False"
| "truthy (Some s) = (s \<noteq> [])"

text \<open>
  The ID branch of the pull action. \<open>hint\<close> is \<^verbatim>\<open>responseData.meta.idField\<close>,
  \<open>None\<close> when the catalog declares none. \<^verbatim>\<open>fields.find\<close> returns the first
  field of that name, and the assignment changes that field in place.
\<close>

definition resolve_id_field ::
  "string option \<Rightarrow> string option \<Rightarrow> field list \<Rightarrow> error + field list" where
  "resolve_id_field specified hint fs =
     (let fieldNames = map name fs in
      if truthy specified then
        if the specified \<notin> set fieldNames
        then Inl (FieldNotFoundError
                    (''Specified ID field '' @ quote @ the specified @ quote
                       @ '' not found in dataset. Available fields: ''
                       @ join '', '' fieldNames))
        else Inr (map (\<lambda>f. f\<lparr>isId := (name f = the specified)\<rparr>) fs)
      else
        (case find (\<lambda>f. Some (name f) = hint) fs of
           Some field \<Rightarrow> Inr (dict_modify (name field) (\<lambda>f. f\<lparr>isId := True\<rparr>) fs)
         | None \<Rightarrow>
             Inl (ResolutionError
                    (''No ID field specified and could not auto-detect one. ''
                       @ ''Use --id-field to specify which field to use as ID.''))))"

definition resolve_name_field ::
  "string option \<Rightarrow> string option \<Rightarrow> field list \<Rightarrow> error + field list" where
  "resolve_name_field specified hint fs =
     (let fieldNames = map name fs in
      if truthy specified then
        if the specified \<notin> set fieldNames
        then Inl (FieldNotFoundError
                    (''Specified Name field '' @ quote @ the specified @ quote
                       @ '' not found in dataset. Available fields: ''
                       @ join '', '' fieldNames))
        else Inr (map (\<lambda>f. f\<lparr>isName := (name f = the specified)\<rparr>) fs)
      else
        (case find (\<lambda>f. Some (name f) = hint) fs of
           Some field \<Rightarrow> Inr (dict_modify (name field) (\<lambda>f. f\<lparr>isName := True\<rparr>) fs)
         | None \<Rightarrow>
             Inl (ResolutionError
                    (''No Name field specified and could not auto-detect one. ''
                       @ ''Use --name-field to specify which field to use as Name.''))))"

text \<open>Both branches in sequence; a throw in the first ends the command.\<close>

definition pull_resolve ::
  "string option \<Rightarrow> string option \<Rightarrow> wizard_state \<Rightarrow> error + wizard_state" where
  "pull_resolve hintId hintName st =
     (case resolve_id_field (specifiedIdField st) hintId (state_fields st) of
        Inl e \<Rightarrow> Inl e
      | Inr fs1 \<Rightarrow>
          (case resolve_name_field (specifiedNameField st) hintName fs1 of
             Inl e \<Rightarrow> Inl e
           | Inr fs2 \<Rightarrow> Inr (st\<lparr>state_fields := fs2\<rparr>)))"

section \<open>Item payload construction\<close>

record item_entry =
  Id :: string
  Name :: string
  Data :: jsobject
  IsArchived :: bool

text \<open>
  The field definition sent to the server; \<open>FieldName\<close> is its property
  \<^verbatim>\<open>Name\<close>.
\<close>

record api_field =
  FieldName :: string
  DataType :: data_type
  IsId :: bool
  IsName :: bool
  IsRequired :: bool
  IsIncluded :: bool
  SampleValues :: "string list"

type_synonym payload = "(string \<times> item_entry) list"

text \<open>The arguments of \<^verbatim>\<open>api.createDataset\<close>.\<close>

record create_call =
  call_datasetId :: string
  call_datasetName :: string
  call_datasetDescription :: string
  call_idField :: string
  call_nameField :: string
  call_fields :: "api_field list"
  call_items :: payload

text \<open>\<^verbatim>\<open>v === null || v === undefined\<close>\<close>

definition nullish :: "jsval \<Rightarrow> bool" where
  "nullish v = (v = Val JNull \<or> v = Undefined)"

text \<open>
  \<^verbatim>\<open>if (itemsPayload[itemIdString])\<close>. \<open>itemsPayload\<close> starts as \<^verbatim>\<open>{}\<close>; the
  read finds an own entry (an object, truthy), or a member inherited from
  \<^verbatim>\<open>Object.prototype\<close> (a function or the prototype object, truthy), or
  \<^verbatim>\<open>undefined\<close>.
\<close>

definition payload_truthy :: "payload \<Rightarrow> string \<Rightarrow> bool" where
  "payload_truthy itemsPayload key = (has_own itemsPayload key \<or> inherited_key key)"

text \<open>The loop \<^verbatim>\<open>forEach\<close> with a body that may throw.\<close>

fun for_each :: "('a \<Rightarrow> 's \<Rightarrow> error + 's) \<Rightarrow> 'a list \<Rightarrow> 's \<Rightarrow> error + 's" where
  "for_each body [] s = Inr s"
| "for_each body (x # xs) s =
     (case body x s of Inl e \<Rightarrow> Inl e | Inr s' \<Rightarrow> for_each body xs s')"

subsection \<open>The import wizard (confirmAndSave)\<close>

definition wizard_data :: "field list \<Rightarrow> jsobject \<Rightarrow> jsobject" where
  "wizard_data fs item =
     fold (\<lambda>field data.
             if isIncluded field \<and> has_own item (name field)
             then (case js_get item (name field) of
                     Val v \<Rightarrow> js_set data (name field) v
                   | _ \<Rightarrow> data)
             else data)
          fs []"

definition wizard_item ::
  "string \<Rightarrow> string \<Rightarrow> field list \<Rightarrow> jsobject \<Rightarrow> payload \<times> nat \<Rightarrow> error + payload \<times> nat" where
  "wizard_item idName nameName fs item acc =
     (case acc of (itemsPayload, skippedItemsCount) \<Rightarrow>
        let itemIdValue = js_get item idName;
            itemNameValue = js_get item nameName
        in if nullish itemIdValue \<or> nullish itemNameValue
           then Inr (itemsPayload, skippedItemsCount + 1)
           else
             (case js_String itemIdValue of
                None \<Rightarrow> Inl TypeError
              | Some itemIdString \<Rightarrow>
                  (case js_String itemNameValue of
                     None \<Rightarrow> Inl TypeError
                   | Some itemNameString \<Rightarrow>
                       if itemIdString = [] then Inr (itemsPayload, skippedItemsCount + 1)
                       else if payload_truthy itemsPayload itemIdString
                       then Inr (itemsPayload, skippedItemsCount + 1)
                       else Inr (js_set itemsPayload itemIdString
                                   \<lparr>Id = itemIdString, Name = itemNameString,
                                    Data = wizard_data fs item, IsArchived = False\<rparr>,
                                 skippedItemsCount))))"

definition wizard_items ::
  "string \<Rightarrow> string \<Rightarrow> field list \<Rightarrow> jsobject list \<Rightarrow> error + payload \<times> nat" where
  "wizard_items idName nameName fs records =
     for_each (wizard_item idName nameName fs) records ([], 0)"

definition wizard_final_fields :: "field list \<Rightarrow> api_field list" where
  "wizard_final_fields fs =
     map (\<lambda>f. \<lparr>FieldName = name f, DataType = dataType f, IsId = isId f, IsName = isName f,
                IsRequired = (isId f \<or> isName f), IsIncluded = isIncluded f,
                SampleValues = sampleValues f\<rparr>)
         (filter isIncluded fs)"

text \<open>
  \<open>confirmAndSave\<close>, with the answer to the confirmation prompt as an argument. The
  result is the skipped count it reports and the call it makes.
\<close>

definition confirmAndSave :: "bool \<Rightarrow> wizard_state \<Rightarrow> error + nat \<times> create_call" where
  "confirmAndSave confirm st =
     (case (find isId (state_fields st), find isName (state_fields st)) of
        (Some idField, Some nameField) \<Rightarrow>
          if \<not> confirm then Inl (WizardCancelled ''Wizard cancelled.'')
          else
            (case parsedJson st of
               None \<Rightarrow> Inl TypeError
             | Some records \<Rightarrow>
                 (case wizard_items (name idField) (name nameField) (state_fields st) records of
                    Inl e \<Rightarrow> Inl e
                  | Inr (itemsPayload, skippedItemsCount) \<Rightarrow>
                      let finalFields = wizard_final_fields (state_fields st)
                      in if \<not> list_ex IsId finalFields \<or> \<not> list_ex IsName finalFields
                         then Inl (WizardCancelled
                                     ''Wizard cancelled due to invalid final field configuration.'')
                         else Inr (skippedItemsCount,
                                   \<lparr>call_datasetId = datasetId st,
                                    call_datasetName = datasetName st,
                                    call_datasetDescription = datasetDescription st,
                                    call_idField = name idField,
                                    call_nameField = name nameField,
                                    call_fields = finalFields,
                                    call_items = itemsPayload\<rparr>)))
      | _ \<Rightarrow> Inl (WizardCancelled ''Wizard cancelled due to configuration error.''))"

subsection \<open>The pull command\<close>

definition pull_data :: "field list \<Rightarrow> jsobject \<Rightarrow> jsobject" where
  "pull_data fs item =
     fold (\<lambda>field data.
             if has_own item (name field)
             then (case js_get item (name field) of
                     Val v \<Rightarrow> js_set data (name field) v
                   | _ \<Rightarrow> data)
             else data)
          fs []"

definition pull_item ::
  "string \<Rightarrow> string \<Rightarrow> field list \<Rightarrow> jsobject \<Rightarrow> payload \<times> nat \<Rightarrow> error + payload \<times> nat" where
  "pull_item idName nameName fs item acc =
     (case acc of (itemsPayload, skippedItemsCount) \<Rightarrow>
        let itemIdValue = js_get item idName;
            itemNameValue = js_get item nameName
        in if nullish itemIdValue \<or> nullish itemNameValue
           then Inr (itemsPayload, skippedItemsCount + 1)
           else
             (case js_String itemIdValue of
                None \<Rightarrow> Inl TypeError
              | Some itemIdString \<Rightarrow>
                  (case js_String itemNameValue of
                     None \<Rightarrow> Inl TypeError
                   | Some itemNameString \<Rightarrow>
                       if itemIdString = [] then Inr (itemsPayload, skippedItemsCount + 1)
                       else if payload_truthy itemsPayload itemIdString
                       then Inr (itemsPayload, skippedItemsCount + 1)
                       else Inr (js_set itemsPayload itemIdString
                                   \<lparr>Id = itemIdString, Name = itemNameString,
                                    Data = pull_data fs item, IsArchived = False\<rparr>,
                                 skippedItemsCount))))"

definition pull_items ::
  "string \<Rightarrow> string \<Rightarrow> field list \<Rightarrow> jsobject list \<Rightarrow> error + payload \<times> nat" where
  "pull_items idName nameName fs records =
     for_each (pull_item idName nameName fs) records ([], 0)"

definition pull_final_fields :: "field list \<Rightarrow> api_field list" where
  "pull_final_fields fs =
     map (\<lambda>f. \<lparr>FieldName = name f, DataType = dataType f, IsId = isId f, IsName = isName f,
                IsRequired = (isId f \<or> isName f), IsIncluded = True,
                SampleValues = sampleValues f\<rparr>)
         fs"

text \<open>
  The pull action from the lookup of the designated fields to the call of
  \<^verbatim>\<open>api.createDataset\<close>, on the state that the check of the dataset identifier
  has let through and lower-cased. A missing designation would end in the
  \<^verbatim>\<open>TypeError\<close> of \<^verbatim>\<open>idField.name\<close>; every field is marked included before the
  payload is built.
\<close>

definition pull_save :: "wizard_state \<Rightarrow> error + nat \<times> create_call" where
  "pull_save st =
     (case (find isId (state_fields st), find isName (state_fields st)) of
        (Some idField, Some nameField) \<Rightarrow>
          let fs = map (\<lambda>f. f\<lparr>isIncluded := True\<rparr>) (state_fields st)
          in (case parsedJson st of
                None \<Rightarrow> Inl TypeError
              | Some records \<Rightarrow>
                  (case pull_items (name idField) (name nameField) fs records of
                     Inl e \<Rightarrow> Inl e
                   | Inr (itemsPayload, skippedItemsCount) \<Rightarrow>
                       Inr (skippedItemsCount,
                            \<lparr>call_datasetId = datasetId st,
                             call_datasetName = datasetName st,
                             call_datasetDescription = datasetDescription st,
                             call_idField = name idField,
                             call_nameField = name nameField,
                             call_fields = pull_final_fields fs,
                             call_items = itemsPayload\<rparr>)))
      | _ \<Rightarrow> Inl TypeError)"

section \<open>Vocabulary of the properties\<close>

text \<open>The elements of a list in the order of their first occurrence.\<close>

definition first_seen :: "'a list \<Rightarrow> 'a list" where
  "first_seen xs = rev (remdups (rev xs))"

definition is_plain_object :: "json \<Rightarrow> bool" where
  "is_plain_object v = (case v of JObj item \<Rightarrow> True | _ \<Rightarrow> False)"

text \<open>Every key of every record, record after record.\<close>

definition all_keys :: "json list \<Rightarrow> string list" where
  "all_keys items = concat (map (\<lambda>v. map fst (the_object v)) items)"

text \<open>The values a key holds, in the order the records are read.\<close>

definition sightings :: "string \<Rightarrow> json list \<Rightarrow> jsval list" where
  "sightings key items =
     concat (map (\<lambda>v. map (js_get (the_object v))
                         (filter (\<lambda>k. k = key) (map fst (the_object v)))) items)"

text \<open>The first type of a list that is not \<open>Unknown\<close>.\<close>

definition first_concrete :: "data_type list \<Rightarrow> data_type" where
  "first_concrete ts = (case find (\<lambda>t. t \<noteq> Unknown) ts of Some t \<Rightarrow> t | None \<Rightarrow> Unknown)"

text \<open>The number a string of decimal digits denotes.\<close>

definition digit_value :: "char \<Rightarrow> nat" where
  "digit_value c = length (takeWhile (\<lambda>d. d \<noteq> c) ''0123456789'')"

definition decimal_value :: "string \<Rightarrow> nat" where
  "decimal_value ds = foldl (\<lambda>acc c. 10 * acc + digit_value c) 0 ds"

text \<open>An items payload without the data of its entries.\<close>

definition entry_heads :: "payload \<Rightarrow> (string \<times> string \<times> string \<times> bool) list" where
  "entry_heads p = map (\<lambda>(key, e). (key, Id e, Name e, IsArchived e)) p"

text \<open>The non-empty samples a list of values projects to.\<close>

definition projections :: "jsval list \<Rightarrow> string list" where
  "projections vs = filter (\<lambda>s. s \<noteq> []) (List.map_filter getSampleValue vs)"

section \<open>Notions used in the proofs\<close>

text \<open>
  The field a dictionary holds under a key, the two updates of one visit as a single
  step, and the loop over items and keys as one pass over the list of its visits.
\<close>

definition lookup :: "field list \<Rightarrow> string \<Rightarrow> field option" where
  "lookup d key = find (\<lambda>f. name f = key) d"

definition step :: "host \<Rightarrow> jsval \<Rightarrow> field \<Rightarrow> field" where
  "step h v = (\<lambda>f. upgrade_type h v (collect_sample v f))"

definition visits :: "json list \<Rightarrow> (jsobject \<times> string) list" where
  "visits items =
     concat (map (\<lambda>v. map (\<lambda>k. (the_object v, k)) (map fst (the_object v))) items)"

definition run :: "host \<Rightarrow> (jsobject \<times> string) list \<Rightarrow> field list \<Rightarrow> field list" where
  "run h vs d = fold (\<lambda>(item, key). process_key h item key) vs d"

definition seen :: "string \<Rightarrow> (jsobject \<times> string) list \<Rightarrow> jsval list" where
  "seen key vs = map (\<lambda>(item, k). js_get item k) (filter (\<lambda>(item, k). k = key) vs)"

definition field_ok :: "host \<Rightarrow> string \<Rightarrow> jsval list \<Rightarrow> field \<Rightarrow> bool" where
  "field_ok h key vals f =
     (name f = key \<and> dataType f = first_concrete (map (determineDataType h) vals)
      \<and> sampleValues f = take 3 (first_seen (projections vals))
      \<and> \<not> isId f \<and> \<not> isName f \<and> isIncluded f)"

section \<open>A worked example\<close>

text \<open>
  The scenario of the specification: three records, the second repeating the ID of the
  first, the third with an empty ID.
\<close>

definition example_records :: "jsobject list" where
  "example_records =
     [[(''id'', JStr ''us''), (''name'', JStr ''United States''), (''pop'', JNum 331)],
      [(''id'', JStr ''us''), (''name'', JStr ''dup'')],
      [(''id'', JStr []), (''name'', JStr ''x'')]]"

definition example_host :: host where
  "example_host =
     \<lparr>JSON_parse = (\<lambda>content. Some (JArr (map JObj example_records))),
      Date_parse_ok = (\<lambda>s. True)\<rparr>"

definition example_state :: wizard_state where
  "example_state =
     \<lparr>jsonContent = Some ''countries'', parsedJson = None, state_fields = [], itemCount = 0,
      datasetId = ''countries'', datasetName = ''Countries'', datasetDescription = [],
      specifiedIdField = Some ''id'', specifiedNameField = Some ''name''\<rparr>"

definition example_discovered :: "field list" where
  "example_discovered =
     [\<lparr>name = ''id'', dataType = Text, sampleValues = [''us''],
       isId = False, isName = False, isIncluded = True\<rparr>,
      \<lparr>name = ''name'', dataType = Text, sampleValues = [''United States'', ''dup'', ''x''],
       isId = False, isName = False, isIncluded = True\<rparr>,
      \<lparr>name = ''pop'', dataType = Number, sampleValues = [''331''],
       isId = False, isName = False, isIncluded = True\<rparr>]"

definition example_fields :: "field list" where
  "example_fields =
     [\<lparr>name = ''id'', dataType = Text, sampleValues = [''us''],
       isId = True, isName = False, isIncluded = True\<rparr>,
      \<lparr>name = ''name'', dataType = Text, sampleValues = [''United States'', ''dup'', ''x''],
       isId = False, isName = True, isIncluded = True\<rparr>,
      \<lparr>name = ''pop'', dataType = Number, sampleValues = [''331''],
       isId = False, isName = False, isIncluded = True\<rparr>]"

definition example_payload :: payload where
  "example_payload =
     [(''us'', \<lparr>Id = ''us'', Name = ''United States'',
               Data = [(''id'', JStr ''us''), (''name'', JStr ''United States''),
                       (''pop'', JNum 331)],
               IsArchived = False\<rparr>)]"

text \<open>The designated fields of the example, the state they belong to and the call it ends in.\<close>

definition example_resolved :: wizard_state where
  "example_resolved =
     example_state\<lparr>parsedJson := Some example_records, itemCount := 3,
                   state_fields := example_fields\<rparr>"

definition example_call :: create_call where
  "example_call =
     \<lparr>call_datasetId = ''countries'', call_datasetName = ''Countries'',
      call_datasetDescription = [], call_idField = ''id'', call_nameField = ''name'',
      call_fields = pull_final_fields example_fields, call_items = example_payload\<rparr>"

text \<open>The same fields with \<open>pop\<close> excluded, as the wizard lets its user do.\<close>

definition excluding_fields :: "field list" where
  "excluding_fields =
     [\<lparr>name = ''id'', dataType = Text, sampleValues = [''us''],
       isId = True, isName = False, isIncluded = True\<rparr>,
      \<lparr>name = ''name'', dataType = Text, sampleValues = [''United States'', ''dup'', ''x''],
       isId = False, isName = True, isIncluded = True\<rparr>,
      \<lparr>name = ''pop'', dataType = Number, sampleValues = [''331''],
       isId = False, isName = False, isIncluded = False\<rparr>]"

text \<open>Two discovered fields before any designation.\<close>

definition catalog_fields :: "field list" where
  "catalog_fields =
     [\<lparr>name = ''code'', dataType = Text, sampleValues = [''us''],
       isId = False, isName = False, isIncluded = True\<rparr>,
      \<lparr>name = ''title'', dataType = Text, sampleValues = [''United States''],
       isId = False, isName = False, isIncluded = True\<rparr>]"

text \<open>
  Records of mixed types: \<open>a\<close> is first null, \<open>b\<close> is a number and then a string,
  \<open>c\<close> takes five values, one of them empty and one repeated.
\<close>

definition mixed_items :: "json list" where
  "mixed_items =
     [JObj [(''a'', JNull), (''b'', JNum 1), (''c'', JStr ''p'')],
      JObj [(''a'', JStr ''x''), (''b'', JStr ''y''), (''c'', JStr [])],
      JObj [(''a'', JNum 7), (''c'', JStr ''p'')],
      JObj [(''c'', JStr ''q'')],
      JObj [(''c'', JStr ''r'')],
      JObj [(''c'', JStr ''s'')]]"

definition mixed_host :: host where
  "mixed_host =
     \<lparr>JSON_parse = (\<lambda>content. Some (JArr mixed_items)), Date_parse_ok = (\<lambda>s. True)\<rparr>"

definition mixed_discovered :: "field list" where
  "mixed_discovered =
     [\<lparr>name = ''a'', dataType = Text, sampleValues = [''null'', ''x'', ''7''],
       isId = False, isName = False, isIncluded = True\<rparr>,
      \<lparr>name = ''b'', dataType = Number, sampleValues = [''1'', ''y''],
       isId = False, isName = False, isIncluded = True\<rparr>,
      \<lparr>name = ''c'', dataType = Text, sampleValues = [''p'', ''q'', ''r''],
       isId = False, isName = False, isIncluded = True\<rparr>]"

text \<open>A host whose input parses to an array with a number in it.\<close>

definition broken_host :: host where
  "broken_host =
     \<lparr>JSON_parse = (\<lambda>content. Some (JArr [JObj [(''a'', JNum 1)], JNum 5])),
      Date_parse_ok = (\<lambda>s. True)\<rparr>"

section \<open>Lists in the order of first occurrence\<close>

lemma set_first_seen [simp]: "set (first_seen xs) = set xs"
  by (simp add: first_seen_def)

lemma distinct_first_seen [simp]: "distinct (first_seen xs)"
  by (simp add: first_seen_def)

lemma first_seen_Nil [simp]: "first_seen [] = []"
  by (simp add: first_seen_def)

lemma remdups_snoc: "remdups (ys @ [x]) = filter (\<lambda>y. y \<noteq> x) (remdups ys) @ [x]"
  by (induction ys) auto

lemma first_seen_Cons: "first_seen (x # xs) = x # filter (\<lambda>y. y \<noteq> x) (first_seen xs)"
  by (simp add: first_seen_def remdups_snoc rev_filter)

lemma first_seen_snoc:
  "first_seen (xs @ [x]) = (if x \<in> set xs then first_seen xs else first_seen xs @ [x])"
  by (simp add: first_seen_def)

lemma first_seen_eq_Nil [simp]: "(first_seen xs = []) = (xs = [])"
  by (metis set_first_seen set_empty)

lemma take3_first_seen_snoc:
  "take 3 (first_seen (xs @ [x])) =
     (if length (take 3 (first_seen xs)) < 3 then set_add x (take 3 (first_seen xs))
      else take 3 (first_seen xs))"
  by (auto simp: first_seen_snoc set_add_def min_def)

lemma first_concrete_Nil [simp]: "first_concrete [] = Unknown"
  by (simp add: first_concrete_def)

lemma first_concrete_Cons:
  "first_concrete (t # ts) = (if t \<noteq> Unknown then t else first_concrete ts)"
  by (simp add: first_concrete_def)

lemma first_concrete_snoc:
  "first_concrete (ts @ [t]) =
     (if first_concrete ts = Unknown \<and> t \<noteq> Unknown then t else first_concrete ts)"
  by (induction ts) (auto simp: first_concrete_Cons)

lemma projections_Nil [simp]: "projections [] = []"
  by (simp add: projections_def List.map_filter_def)

lemma projections_snoc:
  "projections (vs @ [v]) =
     projections vs @ (case getSampleValue v of None \<Rightarrow> [] | Some s \<Rightarrow> if s \<noteq> [] then [s] else [])"
  by (simp add: projections_def List.map_filter_def split: option.splits)

lemma set_projections:
  "set (projections vs) = {s. s \<noteq> [] \<and> (\<exists>v \<in> set vs. getSampleValue v = Some s)}"
  by (induction vs) (auto simp: projections_def List.map_filter_simps split: option.splits)

section \<open>Decimal numerals\<close>

lemma digit_cases: "d < 10 \<Longrightarrow> d \<in> {0, 1, 2, 3, 4, 5, 6, 7, 8, 9 :: nat}"
  by auto

lemma digit_value_nth: "d < 10 \<Longrightarrow> digit_value (''0123456789'' ! d) = d"
  by (drule digit_cases) (auto simp: digit_value_def)

lemma is_digit_nth: "d < 10 \<Longrightarrow> is_digit (''0123456789'' ! d)"
  by (drule digit_cases) (auto simp: is_digit_def)

lemma nth_zero_iff: "d < 10 \<Longrightarrow> (''0123456789'' ! d = CHR ''0'') = (d = 0)"
  by (drule digit_cases) auto

lemma decimal_value_snoc: "decimal_value (ds @ [c]) = 10 * decimal_value ds + digit_value c"
  by (simp add: decimal_value_def)

lemma decimal_value_single: "decimal_value [c] = digit_value c"
  by (simp add: decimal_value_def)

lemma nat_to_string_decimal:
  "decimal_value (nat_to_string n) = n \<and> list_all is_digit (nat_to_string n)
   \<and> nat_to_string n \<noteq> [] \<and> (n \<noteq> 0 \<longrightarrow> hd (nat_to_string n) \<noteq> CHR ''0'')
   \<and> (n = 0 \<longrightarrow> nat_to_string n = ''0'')"
proof (induction n rule: nat_to_string.induct)
  case (1 n)
  show ?case
  proof (cases "n < 10")
    case True
    define c where "c = ''0123456789'' ! n"
    from True have s: "nat_to_string n = [c]"
      by (simp add: nat_to_string.simps c_def)
    from True have "digit_value c = n" "is_digit c" "(c = CHR ''0'') = (n = 0)"
      unfolding c_def by (rule digit_value_nth, rule is_digit_nth, rule nth_zero_iff)
    moreover have "nat_to_string 0 = ''0''"
      by (simp add: nat_to_string.simps)
    ultimately show ?thesis
      by (simp add: s decimal_value_single)
  next
    case False
    then have s: "nat_to_string n = nat_to_string (n div 10) @ [''0123456789'' ! (n mod 10)]"
      by (subst nat_to_string.simps) simp
    from False have nz: "n div 10 \<noteq> 0" by simp
    from "1.IH"[OF False] nz have ih:
      "decimal_value (nat_to_string (n div 10)) = n div 10"
      "list_all is_digit (nat_to_string (n div 10))"
      "nat_to_string (n div 10) \<noteq> []"
      "hd (nat_to_string (n div 10)) \<noteq> CHR ''0''"
      by simp_all
    define c where "c = ''0123456789'' ! (n mod 10)"
    have "digit_value c = n mod 10" "is_digit c"
      unfolding c_def by (rule digit_value_nth, simp, rule is_digit_nth, simp)
    with False ih show ?thesis
      by (simp add: s c_def[symmetric] decimal_value_snoc)
  qed
qed

lemma int_to_string_decimal:
  "\<exists>ds. getSampleValue (Val (JNum n)) = Some ((if n < 0 then ''-'' else []) @ ds)
      \<and> ds \<noteq> [] \<and> list_all is_digit ds
      \<and> (n \<noteq> 0 \<longrightarrow> hd ds \<noteq> CHR ''0'') \<and> (n = 0 \<longrightarrow> ds = ''0'')
      \<and> decimal_value ds = nat \<bar>n\<bar>"
proof -
  let ?ds = "nat_to_string (nat \<bar>n\<bar>)"
  have "getSampleValue (Val (JNum n)) = Some ((if n < 0 then ''-'' else []) @ ?ds)"
    by (simp add: int_to_string_def abs_if)
  moreover have "?ds \<noteq> [] \<and> list_all is_digit ?ds
      \<and> (n \<noteq> 0 \<longrightarrow> hd ?ds \<noteq> CHR ''0'') \<and> (n = 0 \<longrightarrow> ?ds = ''0'')
      \<and> decimal_value ?ds = nat \<bar>n\<bar>"
    using nat_to_string_decimal[of "nat \<bar>n\<bar>"] by auto
  ultimately show ?thesis by blast
qed

section \<open>The field dictionary\<close>

lemma name_step [simp]: "name (step h v f) = name f"
  by (simp add: step_def upgrade_type_def collect_sample_def Let_def split: option.splits)

lemma map_name_dict_modify:
  "(\<And>f. name (g f) = name f) \<Longrightarrow> map name (dict_modify key g d) = map name d"
  by (induction d) auto

lemma lookup_dict_modify:
  "(\<And>f. name (g f) = name f) \<Longrightarrow>
   lookup (dict_modify key g d) k = (if k = key then map_option g (lookup d key) else lookup d k)"
  by (induction d) (auto simp: lookup_def)

lemma lookup_append:
  "lookup (d @ [f]) k =
     (case lookup d k of Some x \<Rightarrow> Some x | None \<Rightarrow> if name f = k then Some f else None)"
  by (induction d) (auto simp: lookup_def)

lemma lookup_None_iff: "(lookup d k = None) = (k \<notin> set (map name d))"
  by (auto simp: lookup_def find_None_iff)

lemma lookup_Some_name: "lookup d k = Some f \<Longrightarrow> name f = k \<and> f \<in> set d"
  by (auto simp: lookup_def find_Some_iff)

lemma lookup_member: "distinct (map name d) \<Longrightarrow> f \<in> set d \<Longrightarrow> lookup d (name f) = Some f"
  by (induction d) (auto simp: lookup_def)

lemma process_key_step:
  "process_key h item key d =
     dict_modify key (step h (js_get item key))
       (if key \<in> set (map name d) then d else d @ [new_field h key (js_get item key)])"
  by (simp add: process_key_def Let_def step_def dict_has_def)

lemma map_name_process_key:
  "map name (process_key h item key d) =
     (if key \<in> set (map name d) then map name d else map name d @ [key])"
  by (simp add: process_key_step map_name_dict_modify new_field_def)

lemma lookup_process_key:
  "lookup (process_key h item key d) k =
     (if k = key then
        Some (step h (js_get item key)
               (case lookup d key of None \<Rightarrow> new_field h key (js_get item key) | Some f \<Rightarrow> f))
      else lookup d k)"
proof (cases "lookup d key")
  case None
  then have "key \<notin> set (map name d)" by (simp add: lookup_None_iff)
  with None show ?thesis
    by (simp add: process_key_step lookup_dict_modify lookup_append new_field_def
             split: option.splits)
next
  case (Some f)
  then have "key \<in> set (map name d)"
    using lookup_None_iff[of d key] by simp
  with Some show ?thesis
    by (simp add: process_key_step lookup_dict_modify)
qed

section \<open>Discovery as one pass over the visits\<close>

lemma all_keys_visits: "all_keys items = map snd (visits items)"
  by (simp add: all_keys_def visits_def map_concat comp_def)

lemma sightings_visits: "sightings key items = seen key (visits items)"
  by (simp add: sightings_def visits_def seen_def map_concat filter_concat comp_def filter_map)

lemma process_item_run: "process_item h item d = run h (map (\<lambda>k. (item, k)) (map fst item)) d"
  by (simp add: process_item_def run_def fold_map comp_def)

lemma run_append: "run h (vs @ ws) d = run h ws (run h vs d)"
  by (simp add: run_def)

lemma discover_objects:
  "list_all is_plain_object items \<Longrightarrow> discover h items i d = Inr (run h (visits items) d)"
proof (induction items arbitrary: i d)
  case Nil
  then show ?case by (simp add: visits_def run_def)
next
  case (Cons v items)
  then obtain item where v: "v = JObj item" by (cases v) (auto simp: is_plain_object_def)
  have "visits (v # items) = map (\<lambda>k. (item, k)) (map fst item) @ visits items"
    by (simp add: visits_def v)
  with Cons show ?case by (simp add: v run_append process_item_run)
qed

lemma discover_not_objects:
  "\<not> list_all is_plain_object items \<Longrightarrow> discover h items i d = Inl ReferenceError"
proof (induction items arbitrary: i d)
  case Nil
  then show ?case by simp
next
  case (Cons v items)
  then show ?case by (cases v) (auto simp: is_plain_object_def printError_def)
qed

lemma names_run: "map name (run h vs []) = first_seen (map snd vs)"
proof (induction vs rule: rev_induct)
  case Nil
  then show ?case by (simp add: run_def)
next
  case (snoc x vs)
  obtain item key where x: "x = (item, key)" by (cases x)
  have "run h (vs @ [x]) [] = process_key h item key (run h vs [])"
    by (simp add: run_def x)
  with snoc show ?case
    by (simp add: map_name_process_key first_seen_snoc x)
qed

lemma field_ok_new: "field_ok h key [v] (step h v (new_field h key v))"
  by (auto simp: field_ok_def step_def new_field_def upgrade_type_def collect_sample_def Let_def
        first_concrete_Cons projections_def List.map_filter_def set_add_def first_seen_def
        split: option.splits)

lemma field_ok_step:
  assumes "field_ok h key vals f"
  shows "field_ok h key (vals @ [v]) (step h v f)"
proof -
  have s: "sampleValues (collect_sample v f) = take 3 (first_seen (projections (vals @ [v])))"
    using assms
    by (auto simp: field_ok_def collect_sample_def projections_snoc take3_first_seen_snoc
            simp del: length_take split: option.splits)
  have t: "dataType (collect_sample v f) = dataType f"
    by (simp add: collect_sample_def split: option.splits)
  have n: "name (collect_sample v f) = name f" "isId (collect_sample v f) = isId f"
    "isName (collect_sample v f) = isName f" "isIncluded (collect_sample v f) = isIncluded f"
    by (simp_all add: collect_sample_def split: option.splits)
  show ?thesis
    using assms s t n
    by (simp add: field_ok_def step_def upgrade_type_def Let_def first_concrete_snoc)
qed

lemma seen_snoc:
  "seen k (vs @ [(item, key)]) = (if key = k then seen k vs @ [js_get item key] else seen k vs)"
  by (simp add: seen_def)

lemma seen_Nil_iff: "k \<notin> set (map snd vs) \<Longrightarrow> seen k vs = []"
  by (induction vs) (auto simp: seen_def)

lemma fields_run:
  "lookup (run h vs []) k = Some f \<Longrightarrow> field_ok h k (seen k vs) f"
proof (induction vs arbitrary: f rule: rev_induct)
  case Nil
  then show ?case by (simp add: run_def lookup_def)
next
  case (snoc x vs)
  obtain item key where x: "x = (item, key)" by (cases x)
  have r: "run h (vs @ [x]) [] = process_key h item key (run h vs [])"
    by (simp add: run_def x)
  show ?case
  proof (cases "k = key")
    case False
    with snoc r show ?thesis by (simp add: lookup_process_key x seen_snoc)
  next
    case True
    show ?thesis
    proof (cases "lookup (run h vs []) key")
      case None
      then have "key \<notin> set (map snd vs)"
        by (simp add: lookup_None_iff names_run)
      then have "seen key vs = []" by (rule seen_Nil_iff)
      with snoc.prems r None True show ?thesis
        by (auto simp: lookup_process_key x seen_snoc field_ok_new)
    next
      case (Some g)
      with snoc.IH[of g] True have "field_ok h key (seen key vs) g" by simp
      from field_ok_step[OF this] snoc.prems r Some True show ?thesis
        by (auto simp: lookup_process_key x seen_snoc)
    qed
  qed
qed

lemma run_empty_iff: "(run h (visits items) [] = []) = (all_keys items = [])"
proof -
  have "(run h (visits items) [] = []) = (map name (run h (visits items) []) = [])" by simp
  also have "\<dots> = (all_keys items = [])"
    by (simp only: names_run first_seen_eq_Nil all_keys_visits)
  finally show ?thesis .
qed

lemma validate_objects:
  assumes "jsonContent st = Some content" and "content \<noteq> []"
    and "JSON_parse h content = Some (JArr items)"
    and "items \<noteq> []" and "list_all is_plain_object items"
  shows "validateAndProcessJson h st =
     (if all_keys items = [] then Inl ReferenceError
      else Inr (st\<lparr>parsedJson := Some (map the_object items), itemCount := length items,
                    state_fields := run h (visits items) []\<rparr>))"
  using assms
  by (simp add: validateAndProcessJson_def try_block_def printError_def discover_objects
        run_empty_iff)

lemma discovered_field_ok:
  assumes "f \<in> set (run h (visits items) [])"
  shows "field_ok h (name f) (sightings (name f) items) f"
proof -
  have "distinct (map name (run h (visits items) []))"
    by (simp add: names_run)
  from lookup_member[OF this assms] show ?thesis
    by (simp add: fields_run sightings_visits)
qed

lemma field_ok_samples:
  assumes "field_ok h key vals f"
  shows "length (sampleValues f) \<le> 3 \<and> distinct (sampleValues f) \<and> [] \<notin> set (sampleValues f)
       \<and> sampleValues f = take 3 (first_seen (projections vals))
       \<and> (\<forall>s \<in> set (sampleValues f). \<exists>v \<in> set vals. getSampleValue v = Some s)"
proof -
  from assms have eq: "sampleValues f = take 3 (first_seen (projections vals))"
    by (simp add: field_ok_def)
  have sub: "set (sampleValues f) \<subseteq> set (projections vals)"
    unfolding eq using set_take_subset[of 3 "first_seen (projections vals)"] by simp
  have "[] \<notin> set (projections vals)" by (simp add: set_projections)
  with sub have ne: "[] \<notin> set (sampleValues f)" by blast
  have ex: "\<forall>s \<in> set (sampleValues f). \<exists>v \<in> set vals. getSampleValue v = Some s"
    using sub by (auto simp: set_projections)
  have "length (sampleValues f) \<le> 3" "distinct (sampleValues f)"
    by (simp_all add: eq)
  with ne ex eq show ?thesis by blast
qed

lemma sightings_own: "v \<in> set (sightings key items) \<Longrightarrow> \<exists>x. v = Val x"
  by (auto simp: sightings_def js_get_def split: option.splits dest: weak_map_of_SomeI
           simp: map_of_eq_None_iff)

subsection \<open>The examples, evaluated\<close>

lemma example_discovery: "validateAndProcessJson example_host example_state =
   Inr (example_state\<lparr>parsedJson := Some example_records, itemCount := 3, state_fields := example_discovered\<rparr>)"
  by (simp add: validateAndProcessJson_def try_block_def example_host_def example_state_def
        example_records_def
        example_discovered_def process_item_def process_key_def Let_def dict_has_def new_field_def
        collect_sample_def upgrade_type_def set_add_def js_get_def int_to_string_def nat_to_string.simps)

lemma mixed_eval:
  "validateAndProcessJson mixed_host example_state =
     Inr (example_state\<lparr>parsedJson := Some (map the_object mixed_items), itemCount := 6,
                        state_fields := mixed_discovered\<rparr>)"
  by (simp add: validateAndProcessJson_def try_block_def mixed_host_def example_state_def
        mixed_items_def
        mixed_discovered_def process_item_def process_key_def Let_def dict_has_def new_field_def
        collect_sample_def upgrade_type_def set_add_def js_get_def int_to_string_def
        nat_to_string.simps)

lemma validate_cases:
  assumes "jsonContent st = Some content" and "content \<noteq> []"
    and "JSON_parse h content = Some v"
  shows "validateAndProcessJson h st =
     (case v of
        JArr items \<Rightarrow>
          if items = [] \<or> \<not> list_all is_plain_object items \<or> all_keys items = []
          then Inl ReferenceError
          else Inr (st\<lparr>parsedJson := Some (map the_object items), itemCount := length items,
                        state_fields := run h (visits items) []\<rparr>)
      | _ \<Rightarrow> Inl ReferenceError)"
proof (cases "\<exists>items. v = JArr items")
  case False
  with assms show ?thesis
    by (cases v) (simp_all add: validateAndProcessJson_def try_block_def printError_def)
next
  case True
  then obtain items where v: "v = JArr items" by blast
  show ?thesis
  proof (cases "items = []")
    case True
    with assms v show ?thesis
      by (simp add: validateAndProcessJson_def try_block_def printError_def)
  next
    case ne: False
    show ?thesis
    proof (cases "list_all is_plain_object items")
      case True
      from validate_objects[OF assms(1,2) assms(3)[unfolded v] ne True] v ne True
      show ?thesis by simp
    next
      case False
      from discover_not_objects[OF this] assms v ne False show ?thesis
        by (simp add: validateAndProcessJson_def try_block_def printError_def)
    qed
  qed
qed

lemma validate_without_content:
  "jsonContent st = None \<or> jsonContent st = Some [] \<or>
     (\<exists>content. jsonContent st = Some content \<and> JSON_parse h content = None)
   \<Longrightarrow> validateAndProcessJson h st = Inl ReferenceError"
  by (auto simp: validateAndProcessJson_def try_block_def printError_def)

section \<open>Resolution of the designated fields\<close>

lemma dict_modify_flags:
  "map name (dict_modify key (\<lambda>f. f\<lparr>isId := b\<rparr>) fs) = map name fs"
  "map isName (dict_modify key (\<lambda>f. f\<lparr>isId := b\<rparr>) fs) = map isName fs"
  "map name (dict_modify key (\<lambda>f. f\<lparr>isName := b\<rparr>) fs) = map name fs"
  "map isId (dict_modify key (\<lambda>f. f\<lparr>isName := b\<rparr>) fs) = map isId fs"
  by (induction fs) auto

lemma resolve_id_frame:
  "resolve_id_field specified hint fs = Inr fs' \<Longrightarrow>
     map name fs' = map name fs \<and> map isName fs' = map isName fs"
  by (auto simp: resolve_id_field_def Let_def dict_modify_flags comp_def
           split: if_splits option.splits)

lemma resolve_name_frame:
  "resolve_name_field specified hint fs = Inr fs' \<Longrightarrow>
     map name fs' = map name fs \<and> map isId fs' = map isId fs"
  by (auto simp: resolve_name_field_def Let_def dict_modify_flags comp_def
           split: if_splits option.splits)

lemma find_hint_None:
  "hint \<notin> Some ` set (map name fs) \<Longrightarrow> find (\<lambda>f. Some (name f) = hint) fs = None"
  by (auto simp: find_None_iff)

lemma resolve_id_explicit:
  assumes "wanted \<noteq> []"
  shows "resolve_id_field (Some wanted) hint fs =
     (if wanted \<in> set (map name fs)
      then Inr (map (\<lambda>f. f\<lparr>isId := (name f = wanted)\<rparr>) fs)
      else Inl (FieldNotFoundError
                  (''Specified ID field '' @ quote @ wanted @ quote
                     @ '' not found in dataset. Available fields: ''
                     @ join '', '' (map name fs))))"
  using assms by (simp add: resolve_id_field_def Let_def)

lemma resolve_name_explicit:
  assumes "wanted \<noteq> []"
  shows "resolve_name_field (Some wanted) hint fs =
     (if wanted \<in> set (map name fs)
      then Inr (map (\<lambda>f. f\<lparr>isName := (name f = wanted)\<rparr>) fs)
      else Inl (FieldNotFoundError
                  (''Specified Name field '' @ quote @ wanted @ quote
                     @ '' not found in dataset. Available fields: ''
                     @ join '', '' (map name fs))))"
  using assms by (simp add: resolve_name_field_def Let_def)

lemma same_flags:
  assumes "map name fs' = map name fs" and "map isId fs' = map isId fs"
    and "\<forall>f \<in> set fs. isId f = (name f = w)"
  shows "\<forall>f \<in> set fs'. isId f = (name f = w)"
proof
  fix f assume "f \<in> set fs'"
  then obtain j where j: "j < length fs'" "fs' ! j = f" by (auto simp: in_set_conv_nth)
  from assms(1) have len: "length fs' = length fs" by (metis length_map)
  from j len assms(1,2) have "name f = name (fs ! j)" "isId f = isId (fs ! j)"
    by (metis nth_map)+
  moreover from j len assms(3) have "isId (fs ! j) = (name (fs ! j) = w)" by simp
  ultimately show "isId f = (name f = w)" by simp
qed

lemma pull_resolve_id_flags:
  assumes "pull_resolve hi hn st = Inr st'" and "truthy (specifiedIdField st)"
  shows "\<forall>f \<in> set (state_fields st'). isId f = (name f = the (specifiedIdField st))"
proof -
  from assms(2) obtain w where w: "specifiedIdField st = Some w" "w \<noteq> []"
    by (cases "specifiedIdField st") auto
  from assms(1) obtain fs1 where
    1: "resolve_id_field (Some w) hi (state_fields st) = Inr fs1" and
    2: "resolve_name_field (specifiedNameField st) hn fs1 = Inr (state_fields st')"
    by (auto simp: pull_resolve_def w split: sum.splits)
  from 1 w(2) have "fs1 = map (\<lambda>f. f\<lparr>isId := (name f = w)\<rparr>) (state_fields st)"
    by (auto simp: resolve_id_explicit split: if_splits)
  then have "\<forall>f \<in> set fs1. isId f = (name f = w)" by auto
  with resolve_name_frame[OF 2] show ?thesis
    using same_flags[of "state_fields st'" fs1 w] by (simp add: w)
qed

lemma pull_resolve_name_flags:
  assumes "pull_resolve hi hn st = Inr st'" and "truthy (specifiedNameField st)"
  shows "\<forall>f \<in> set (state_fields st'). isName f = (name f = the (specifiedNameField st))"
proof -
  from assms(2) obtain w where w: "specifiedNameField st = Some w" "w \<noteq> []"
    by (cases "specifiedNameField st") auto
  from assms(1) obtain fs1 where
    2: "resolve_name_field (Some w) hn fs1 = Inr (state_fields st')"
    by (auto simp: pull_resolve_def w split: sum.splits)
  from 2 w(2) have "state_fields st' = map (\<lambda>f. f\<lparr>isName := (name f = w)\<rparr>) fs1"
    by (auto simp: resolve_name_explicit split: if_splits)
  then show ?thesis by (auto simp: w)
qed

lemma example_resolution:
  "pull_resolve None None
     (example_state\<lparr>parsedJson := Some example_records, itemCount := 3,
                    state_fields := example_discovered\<rparr>) = Inr example_resolved"
  by (simp add: pull_resolve_def resolve_id_field_def resolve_name_field_def example_state_def
        example_discovered_def example_fields_def example_resolved_def)

section \<open>The payload loop\<close>

lemma put_fresh: "key \<notin> set (map fst ps) \<Longrightarrow> put key v ps = ps @ [(key, v)]"
  by (induction ps) auto

lemma wizard_item_cases:
  assumes "wizard_item i n fs item (p, k) = Inr (p', k')"
  shows "(p' = p \<and> k' = Suc k) \<or>
         (\<exists>key e. \<not> has_own p key \<and> \<not> inherited_key key \<and> key \<noteq> [] \<and> p' = p @ [(key, e)] \<and> k' = k
            \<and> js_String (js_get item i) = Some key \<and> Id e = key \<and> Data e = wizard_data fs item \<and> \<not> IsArchived e
            \<and> js_String (js_get item n) = Some (Name e))"
  using assms
  by (auto simp: wizard_item_def Let_def payload_truthy_def js_set_def inherited_key_def has_own_def put_fresh
           split: option.splits if_splits)

text \<open>The policy of the loop body for one record, at a payload \<open>p\<close> and a count \<open>k\<close>.\<close>

lemma wizard_item_policy:
  "wizard_item idName nameName fs item (p, k) =
     (if nullish (js_get item idName) \<or> nullish (js_get item nameName) then Inr (p, k + 1)
      else
        (case js_String (js_get item idName) of
           None \<Rightarrow> Inl TypeError
         | Some itemId \<Rightarrow>
             (case js_String (js_get item nameName) of
                None \<Rightarrow> Inl TypeError
              | Some itemName \<Rightarrow>
                  if itemId = [] \<or> has_own p itemId \<or> inherited_key itemId then Inr (p, k + 1)
                  else Inr (p @ [(itemId, \<lparr>Id = itemId, Name = itemName,
                                           Data = wizard_data fs item, IsArchived = False\<rparr>)],
                            k))))"
  by (auto simp: wizard_item_def Let_def payload_truthy_def js_set_def inherited_key_def
        has_own_def put_fresh split: option.splits)

lemma wizard_items_conserve_aux:
  "for_each (wizard_item i n fs) records (p, k) = Inr (p', k') \<Longrightarrow> distinct (map fst p) \<Longrightarrow>
     length p' + k' = length p + k + length records \<and> distinct (map fst p')"
proof (induction records arbitrary: p k)
  case Nil
  then show ?case by simp
next
  case (Cons r rs)
  then obtain p1 k1 where s: "wizard_item i n fs r (p, k) = Inr (p1, k1)"
    and r: "for_each (wizard_item i n fs) rs (p1, k1) = Inr (p', k')"
    by (auto split: sum.splits)
  from wizard_item_cases[OF s] Cons.prems(2)
  have "length p1 + k1 = Suc (length p + k) \<and> distinct (map fst p1)"
    by (auto simp: has_own_def)
  with Cons.IH[OF r] show ?case by simp
qed

lemma wizard_items_conserve:
  assumes "wizard_items i n fs records = Inr (p, k)"
  shows "length p + k = length records \<and> distinct (map fst p)"
  using wizard_items_conserve_aux[of i n fs records "[]" 0 p k] assms
  by (simp add: wizard_items_def)

lemma for_each_total:
  assumes "\<And>x s. x \<in> set xs \<Longrightarrow> \<exists>s'. body x s = Inr s'"
  shows "\<exists>s'. for_each body xs s = Inr s'"
  using assms
proof (induction xs arbitrary: s)
  case Nil
  then show ?case by simp
next
  case (Cons x xs)
  from Cons.prems[of x s] obtain s1 where "body x s = Inr s1" by auto
  moreover from Cons.IH[of s1] Cons.prems obtain s2 where "for_each body xs s1 = Inr s2"
    by auto
  ultimately show ?case by simp
qed

lemma wizard_item_total:
  assumes "js_String (js_get item i) \<noteq> None" and "js_String (js_get item n) \<noteq> None"
  shows "\<exists>s'. wizard_item i n fs item s = Inr s'"
  using assms
  by (cases s) (auto simp: wizard_item_def Let_def split: option.splits)

lemma wizard_items_total:
  assumes "list_all (\<lambda>r. js_String (js_get r i) \<noteq> None \<and> js_String (js_get r n) \<noteq> None) records"
  shows "\<exists>p k. wizard_items i n fs records = Inr (p, k)"
proof -
  have "\<exists>s'. for_each (wizard_item i n fs) records ([], 0) = Inr s'"
    using assms by (intro for_each_total wizard_item_total) (auto simp: list_all_iff)
  then show ?thesis by (auto simp: wizard_items_def)
qed

text \<open>
The pull command runs the loop of the wizard on fields that are all included.
\<close>

lemma pull_data_eq: "pull_data fs item = wizard_data (map (\<lambda>f. f\<lparr>isIncluded := True\<rparr>) fs) item"
proof -
  have "fold (\<lambda>field data.
             if has_own item (name field)
             then (case js_get item (name field) of
                     Val v \<Rightarrow> js_set data (name field) v
                   | _ \<Rightarrow> data)
             else data) fs acc
      = fold (\<lambda>field data.
             if isIncluded field \<and> has_own item (name field)
             then (case js_get item (name field) of
                     Val v \<Rightarrow> js_set data (name field) v
                   | _ \<Rightarrow> data)
             else data) (map (\<lambda>f. f\<lparr>isIncluded := True\<rparr>) fs) acc" for acc
    by (induction fs arbitrary: acc) (simp_all split: jsval.splits)
  then show ?thesis by (simp add: pull_data_def wizard_data_def)
qed

lemma pull_item_eq: "pull_item i n fs = wizard_item i n (map (\<lambda>f. f\<lparr>isIncluded := True\<rparr>) fs)"
  unfolding pull_item_def wizard_item_def pull_data_eq by (rule refl)

lemma pull_items_eq: "pull_items i n fs records = wizard_items i n (map (\<lambda>f. f\<lparr>isIncluded := True\<rparr>) fs) records"
  by (simp add: pull_items_def wizard_items_def pull_item_eq)

lemma all_included_id: "list_all isIncluded fs \<Longrightarrow> map (\<lambda>f. f\<lparr>isIncluded := True\<rparr>) fs = fs"
  by (induction fs) auto

lemma final_fields_eq:
  "list_all isIncluded fs \<Longrightarrow> wizard_final_fields fs = pull_final_fields fs"
  by (induction fs) (auto simp: wizard_final_fields_def pull_final_fields_def)

lemma find_Some_member: "find P xs = Some x \<Longrightarrow> x \<in> set xs \<and> P x"
  by (auto simp: find_Some_iff)

lemma list_ex_wizard_final:
  "list_ex IsId (wizard_final_fields fs) = (\<exists>f \<in> set fs. isIncluded f \<and> isId f)"
  "list_ex IsName (wizard_final_fields fs) = (\<exists>f \<in> set fs. isIncluded f \<and> isName f)"
  by (auto simp: wizard_final_fields_def list_ex_iff)

lemma save_eq:
  assumes "list_all isIncluded (state_fields st)"
  shows "(confirmAndSave True st = Inr r) = (pull_save st = Inr r)"
proof -
  let ?fs = "state_fields st"
  have m: "map (\<lambda>f. f\<lparr>isIncluded := True\<rparr>) ?fs = ?fs"
    using assms by (rule all_included_id)
  show ?thesis
  proof (cases "find isId ?fs")
    case None
    then show ?thesis by (simp add: confirmAndSave_def pull_save_def)
  next
    case i: (Some idf)
    show ?thesis
    proof (cases "find isName ?fs")
      case None
      with i show ?thesis by (simp add: confirmAndSave_def pull_save_def)
    next
      case n: (Some nmf)
      from find_Some_member[OF i] find_Some_member[OF n] assms
      have "list_ex IsId (wizard_final_fields ?fs)" "list_ex IsName (wizard_final_fields ?fs)"
        by (auto simp: list_ex_wizard_final list_all_iff)
      with i n m assms show ?thesis
        by (auto simp: confirmAndSave_def pull_save_def Let_def pull_items_eq final_fields_eq
                 split: option.splits sum.splits)
    qed
  qed
qed

text \<open>
  Whatever the fields, the two loops skip the same records and build entries under the
  same keys with the same \<open>Id\<close>, \<open>Name\<close> and \<open>IsArchived\<close>: the fields enter the
  data only.
\<close>

lemma has_own_heads: "has_own p key = (key \<in> set (map fst (entry_heads p)))"
  by (induction p) (auto simp: has_own_def entry_heads_def)

lemma entry_heads_snoc:
  "entry_heads (p @ [(key, e)]) = entry_heads p @ [(key, Id e, Name e, IsArchived e)]"
  by (simp add: entry_heads_def)

lemma wizard_item_heads:
  assumes "entry_heads p = entry_heads p'"
  shows "map_sum id (\<lambda>(q, c). (entry_heads q, c)) (wizard_item i n fs item (p, k))
       = map_sum id (\<lambda>(q, c). (entry_heads q, c)) (wizard_item i n fs' item (p', k))"
  using assms
  by (simp add: wizard_item_policy has_own_heads entry_heads_snoc split: option.splits)

lemma for_each_heads:
  assumes "entry_heads p = entry_heads p'"
  shows "map_sum id (\<lambda>(q, c). (entry_heads q, c)) (for_each (wizard_item i n fs) records (p, k))
       = map_sum id (\<lambda>(q, c). (entry_heads q, c)) (for_each (wizard_item i n fs') records (p', k))"
  using assms
proof (induction records arbitrary: p p' k)
  case Nil
  then show ?case by simp
next
  case (Cons r rs)
  from wizard_item_heads[OF Cons.prems, of i n fs r k fs']
  consider (err) e where "wizard_item i n fs r (p, k) = Inl e" "wizard_item i n fs' r (p', k) = Inl e"
    | (ok) q c q' where "wizard_item i n fs r (p, k) = Inr (q, c)"
        "wizard_item i n fs' r (p', k) = Inr (q', c)" "entry_heads q = entry_heads q'"
    by (cases "wizard_item i n fs r (p, k)"; cases "wizard_item i n fs' r (p', k)") auto
  then show ?case
  proof cases
    case err
    then show ?thesis by simp
  next
    case ok
    with Cons.IH[OF ok(3)] show ?thesis by simp
  qed
qed

lemma wizard_items_heads:
  "map_sum id (\<lambda>(q, c). (entry_heads q, c)) (wizard_items i n fs records)
     = map_sum id (\<lambda>(q, c). (entry_heads q, c)) (wizard_items i n fs' records)"
  unfolding wizard_items_def by (rule for_each_heads) simp

text \<open>
  Discovery creates every field included, and the resolution of the pull action changes
  no \<open>isIncluded\<close>.
\<close>

lemma pull_final_fields_eq:
  "pull_final_fields fs = wizard_final_fields (map (\<lambda>f. f\<lparr>isIncluded := True\<rparr>) fs)"
  by (induction fs) (auto simp: wizard_final_fields_def pull_final_fields_def)

lemma validate_success:
  assumes "validateAndProcessJson h st = Inr st'"
  shows "\<exists>items. state_fields st' = run h (visits items) []"
proof -
  from assms obtain content where c: "jsonContent st = Some content" "content \<noteq> []"
    by (auto simp: validateAndProcessJson_def printError_def split: option.splits if_splits)
  from assms c obtain v where v: "JSON_parse h content = Some v"
    by (auto simp: validateAndProcessJson_def try_block_def printError_def
             split: option.splits if_splits)
  from validate_cases[OF c v] assms show ?thesis
    by (cases v) (auto split: if_splits)
qed

lemma discovered_included:
  assumes "validateAndProcessJson h st = Inr st'"
  shows "list_all isIncluded (state_fields st')"
proof -
  from validate_success[OF assms] obtain items
    where "state_fields st' = run h (visits items) []" by blast
  then show ?thesis
    using discovered_field_ok[of _ h items] by (auto simp: list_all_iff field_ok_def)
qed

lemma dict_modify_included:
  "map isIncluded (dict_modify key (\<lambda>f. f\<lparr>isId := b\<rparr>) fs) = map isIncluded fs"
  "map isIncluded (dict_modify key (\<lambda>f. f\<lparr>isName := b\<rparr>) fs) = map isIncluded fs"
  by (induction fs) auto

lemma resolve_id_included:
  "resolve_id_field specified hint fs = Inr fs' \<Longrightarrow> map isIncluded fs' = map isIncluded fs"
  by (auto simp: resolve_id_field_def Let_def dict_modify_included comp_def
           split: if_splits option.splits)

lemma resolve_name_included:
  "resolve_name_field specified hint fs = Inr fs' \<Longrightarrow> map isIncluded fs' = map isIncluded fs"
  by (auto simp: resolve_name_field_def Let_def dict_modify_included comp_def
           split: if_splits option.splits)

lemma list_all_as_map: "list_all P xs = (False \<notin> set (map P xs))"
  by (induction xs) auto

lemma pull_resolve_included:
  assumes "pull_resolve hintId hintName st = Inr st'" and "list_all isIncluded (state_fields st)"
  shows "list_all isIncluded (state_fields st')"
proof -
  from assms(1) obtain fs1 where
    1: "resolve_id_field (specifiedIdField st) hintId (state_fields st) = Inr fs1" and
    2: "resolve_name_field (specifiedNameField st) hintName fs1 = Inr (state_fields st')"
    by (auto simp: pull_resolve_def split: sum.splits)
  from resolve_id_included[OF 1] resolve_name_included[OF 2]
  have "map isIncluded (state_fields st') = map isIncluded (state_fields st)" by simp
  with assms(2) show ?thesis
    by (simp add: list_all_as_map[of isIncluded])
qed

subsection \<open>The scenario of the specification, evaluated\<close>

lemma example_wizard:
  "wizard_items ''id'' ''name'' example_fields example_records = Inr (example_payload, 2)"
  by (simp add: wizard_items_def wizard_item_def example_fields_def example_records_def
        example_payload_def Let_def js_get_def nullish_def payload_truthy_def has_own_def
        inherited_key_def object_prototype_functions_def js_set_def wizard_data_def)

lemma example_pull:
  "pull_items ''id'' ''name'' example_fields example_records = Inr (example_payload, 2)"
  by (simp add: pull_items_def pull_item_def example_fields_def example_records_def
        example_payload_def Let_def js_get_def nullish_def payload_truthy_def has_own_def
        inherited_key_def object_prototype_functions_def js_set_def pull_data_def)

lemma example_pull_save: "pull_save example_resolved = Inr (2, example_call)"
  by (simp add: pull_save_def example_resolved_def example_state_def example_call_def
        pull_items_def pull_item_def example_fields_def example_records_def
        example_payload_def Let_def js_get_def nullish_def payload_truthy_def has_own_def
        inherited_key_def object_prototype_functions_def js_set_def pull_data_def
        pull_final_fields_def)

lemma example_fields_included: "list_all isIncluded example_fields"
  by (simp add: example_fields_def)

lemma example_resolved_fields: "state_fields example_resolved = example_fields"
  by (simp add: example_resolved_def)

text \<open>The wizard alone can exclude a field: it then leaves it out of the data and the definitions.\<close>

lemma wizard_drops_excluded_field:
  "wizard_items ''id'' ''name'' excluding_fields example_records
     = Inr ([(''us'', \<lparr>Id = ''us'', Name = ''United States'',
                       Data = [(''id'', JStr ''us''), (''name'', JStr ''United States'')],
                       IsArchived = False\<rparr>)], 2)
   \<and> map FieldName (wizard_final_fields excluding_fields) = [''id'', ''name'']"
  by (simp add: wizard_items_def wizard_item_def excluding_fields_def
        example_records_def wizard_final_fields_def
        Let_def js_get_def nullish_def payload_truthy_def has_own_def
        inherited_key_def object_prototype_functions_def js_set_def wizard_data_def)

text \<open>
  A value that fails to convert ends the loop; a designated field whose name every
  object inherits is read from the prototype where the record has no such key; a field
  named \<^verbatim>\<open>__proto__\<close> leaves no own property in the data.
\<close>

lemma throwing_id_example:
  "wizard_items ''id'' ''name'' example_fields
     [[(''id'', JObj [(''toString'', JNum 1)]), (''name'', JStr ''x'')]] = Inl TypeError"
  by (simp add: wizard_items_def wizard_item_def Let_def js_get_def nullish_def has_own_def)

lemma absent_inherited_field_example:
  "wizard_items ''constructor'' ''name'' [] [[(''name'', JStr ''x'')]]
     = Inr ([(''function Object() { [native code] }'',
              \<lparr>Id = ''function Object() { [native code] }'', Name = ''x'', Data = [],
               IsArchived = False\<rparr>)], 0)"
  by (simp add: wizard_items_def wizard_item_def Let_def js_get_def nullish_def has_own_def
        object_prototype_functions_def function_source_def payload_truthy_def inherited_key_def
        js_set_def wizard_data_def)

lemma proto_field_example:
  "wizard_data [\<lparr>name = ''__proto__'', dataType = Unknown, sampleValues = [],
                  isId = False, isName = False, isIncluded = True\<rparr>,
                \<lparr>name = ''a'', dataType = Number, sampleValues = [],
                  isId = False, isName = False, isIncluded = True\<rparr>]
      [(''__proto__'', JNum 1), (''a'', JNum 2)] = [(''a'', JNum 2)]"
  by (simp add: wizard_data_def has_own_def js_get_def js_set_def)

section \<open>The claims\<close>

subsection \<open>Equivalence of the two call sites\<close>

text \<open>
  Claim C1. The loop of the pull command is the loop of the wizard run on the fields all
  marked included, and so are its field definitions. For every field list the two loops
  return the same skipped count and entries under the same keys with the same \<open>Id\<close>,
  \<open>Name\<close> and \<open>IsArchived\<close>, or throw the same error. When all fields are marked
  included, the two build the same payload, data included, and the same field
  definitions. That is so in every state the pull action builds its payload from, since
  discovery creates the fields included and the resolution leaves the mark alone; there
  the pull action and \<open>confirmAndSave\<close> make the same call of
  \<^verbatim>\<open>api.createDataset\<close> with the same skipped count, or neither makes one.
\<close>

theorem wizard_and_pull_share_the_construction:
  shows "pull_items i n fs records
           = wizard_items i n (map (\<lambda>f. f\<lparr>isIncluded := True\<rparr>) fs) records
       \<and> pull_final_fields fs = wizard_final_fields (map (\<lambda>f. f\<lparr>isIncluded := True\<rparr>) fs)
       \<and> map_sum id (\<lambda>(p, k). (entry_heads p, k)) (pull_items i n fs records)
           = map_sum id (\<lambda>(p, k). (entry_heads p, k)) (wizard_items i n fs records)
       \<and> (list_all isIncluded fs \<longrightarrow>
            pull_items i n fs records = wizard_items i n fs records
          \<and> pull_final_fields fs = wizard_final_fields fs)
       \<and> (validateAndProcessJson h st0 = Inr st1 \<and> pull_resolve hintId hintName st1 = Inr st
            \<longrightarrow> list_all isIncluded (state_fields st))
       \<and> (list_all isIncluded (state_fields st) \<longrightarrow>
            (pull_save st = Inr r) = (confirmAndSave True st = Inr r))"
proof -
  have a: "pull_items i n fs records
           = wizard_items i n (map (\<lambda>f. f\<lparr>isIncluded := True\<rparr>) fs) records"
    by (rule pull_items_eq)
  have b: "pull_final_fields fs = wizard_final_fields (map (\<lambda>f. f\<lparr>isIncluded := True\<rparr>) fs)"
    by (rule pull_final_fields_eq)
  have c: "map_sum id (\<lambda>(p, k). (entry_heads p, k)) (pull_items i n fs records)
           = map_sum id (\<lambda>(p, k). (entry_heads p, k)) (wizard_items i n fs records)"
    unfolding a by (rule wizard_items_heads)
  have d: "list_all isIncluded fs \<longrightarrow>
            pull_items i n fs records = wizard_items i n fs records
          \<and> pull_final_fields fs = wizard_final_fields fs"
    by (simp add: pull_items_eq all_included_id final_fields_eq)
  have e: "validateAndProcessJson h st0 = Inr st1 \<and> pull_resolve hintId hintName st1 = Inr st
            \<longrightarrow> list_all isIncluded (state_fields st)"
    using discovered_included[of h st0 st1] pull_resolve_included[of hintId hintName st1 st]
    by blast
  have f: "list_all isIncluded (state_fields st) \<longrightarrow>
            (pull_save st = Inr r) = (confirmAndSave True st = Inr r)"
    using save_eq[of st r] by simp
  show ?thesis by (intro conjI a b c d e f)
qed

theorem wizard_and_pull_share_the_construction_witness:
  "validateAndProcessJson example_host example_state
     = Inr (example_state\<lparr>parsedJson := Some example_records, itemCount := 3,
                          state_fields := example_discovered\<rparr>)
   \<and> pull_resolve None None
       (example_state\<lparr>parsedJson := Some example_records, itemCount := 3,
                      state_fields := example_discovered\<rparr>) = Inr example_resolved
   \<and> list_all isIncluded (state_fields example_resolved)
   \<and> pull_save example_resolved = Inr (2, example_call)
   \<and> confirmAndSave True example_resolved = Inr (2, example_call)
   \<and> pull_items ''id'' ''name'' (state_fields example_resolved) example_records
       = Inr (example_payload, 2)
   \<and> wizard_items ''id'' ''name'' (state_fields example_resolved) example_records
       = Inr (example_payload, 2)"
  using wizard_and_pull_share_the_construction
          [of "''id''" "''name''" example_fields example_records example_host example_state
              "example_state\<lparr>parsedJson := Some example_records, itemCount := 3,
                             state_fields := example_discovered\<rparr>"
              None None example_resolved "(2, example_call)"]
  by (simp add: example_discovery example_resolution example_pull_save example_pull
        example_wizard example_resolved_fields all_included_id example_fields_included)

subsection \<open>The policy for one record\<close>

text \<open>
  Claim C2 says that a record whose ID and Name are present, whose ID is not empty and is
  not yet a key of the output is inserted. The record with ID \<open>constructor\<close> is the
  first and only one of its input, and both call sites skip it and count it as skipped;
  the same record under the ID \<open>builder\<close> is inserted with its data.
\<close>

theorem first_record_with_inherited_id_is_dropped:
  "wizard_items ''id'' ''name'' example_fields
      [[(''id'', JStr ''constructor''), (''name'', JStr ''Constructor'')]] = Inr ([], 1)
   \<and> pull_items ''id'' ''name'' example_fields
      [[(''id'', JStr ''constructor''), (''name'', JStr ''Constructor'')]] = Inr ([], 1)
   \<and> wizard_items ''id'' ''name'' example_fields
      [[(''id'', JStr ''builder''), (''name'', JStr ''Constructor'')]]
      = Inr ([(''builder'', \<lparr>Id = ''builder'', Name = ''Constructor'',
                             Data = [(''id'', JStr ''builder''), (''name'', JStr ''Constructor'')],
                             IsArchived = False\<rparr>)], 0)"
  by (simp add: pull_items_def pull_item_def wizard_items_def wizard_item_def example_fields_def
        Let_def js_get_def nullish_def payload_truthy_def has_own_def
        inherited_key_def object_prototype_functions_def js_set_def wizard_data_def)

subsection \<open>ID and Name resolution\<close>

text \<open>
  Claim C3. An explicit field name (a non-empty option value) that is no discovered field
  ends the command with the error that lists the available names; one that is a
  discovered field marks exactly the fields of that name, and the marks are still so
  when the whole resolution has succeeded; with no explicit name and a hint that matches
  no discovered field the command ends with the resolution error. The Name branch
  follows the same policy and reads no ID mark; an error of either branch is the error of
  the resolution.
\<close>

theorem id_name_resolution_policy:
  shows "(wanted \<noteq> [] \<and> wanted \<notin> set (map name fs) \<longrightarrow>
            resolve_id_field (Some wanted) hint fs =
              Inl (FieldNotFoundError
                     (''Specified ID field '' @ quote @ wanted @ quote
                        @ '' not found in dataset. Available fields: ''
                        @ join '', '' (map name fs)))
          \<and> resolve_name_field (Some wanted) hint fs =
              Inl (FieldNotFoundError
                     (''Specified Name field '' @ quote @ wanted @ quote
                        @ '' not found in dataset. Available fields: ''
                        @ join '', '' (map name fs))))
       \<and> (wanted \<noteq> [] \<and> wanted \<in> set (map name fs) \<longrightarrow>
            (\<exists>fs'. resolve_id_field (Some wanted) hint fs = Inr fs'
                 \<and> map name fs' = map name fs
                 \<and> (\<forall>f \<in> set fs'. isId f = (name f = wanted)))
          \<and> (\<exists>fs'. resolve_name_field (Some wanted) hint fs = Inr fs'
                 \<and> map name fs' = map name fs
                 \<and> (\<forall>f \<in> set fs'. isName f = (name f = wanted))))
       \<and> (\<not> truthy specified \<and> hint \<notin> Some ` set (map name fs) \<longrightarrow>
            resolve_id_field specified hint fs =
              Inl (ResolutionError
                     (''No ID field specified and could not auto-detect one. ''
                        @ ''Use --id-field to specify which field to use as ID.''))
          \<and> resolve_name_field specified hint fs =
              Inl (ResolutionError
                     (''No Name field specified and could not auto-detect one. ''
                        @ ''Use --name-field to specify which field to use as Name.'')))
       \<and> (\<forall>e. resolve_id_field (specifiedIdField st) hintId (state_fields st) = Inl e \<longrightarrow>
               pull_resolve hintId hintName st = Inl e)
       \<and> (\<forall>fs1 e. resolve_id_field (specifiedIdField st) hintId (state_fields st) = Inr fs1
                  \<and> resolve_name_field (specifiedNameField st) hintName fs1 = Inl e \<longrightarrow>
               pull_resolve hintId hintName st = Inl e)
       \<and> (\<forall>st'. pull_resolve hintId hintName st = Inr st' \<and> truthy (specifiedIdField st) \<longrightarrow>
               (\<forall>f \<in> set (state_fields st'). isId f = (name f = the (specifiedIdField st))))
       \<and> (\<forall>st'. pull_resolve hintId hintName st = Inr st' \<and> truthy (specifiedNameField st) \<longrightarrow>
               (\<forall>f \<in> set (state_fields st'). isName f = (name f = the (specifiedNameField st))))"
proof -
  have a: "wanted \<noteq> [] \<and> wanted \<notin> set (map name fs) \<longrightarrow>
            resolve_id_field (Some wanted) hint fs =
              Inl (FieldNotFoundError
                     (''Specified ID field '' @ quote @ wanted @ quote
                        @ '' not found in dataset. Available fields: ''
                        @ join '', '' (map name fs)))
          \<and> resolve_name_field (Some wanted) hint fs =
              Inl (FieldNotFoundError
                     (''Specified Name field '' @ quote @ wanted @ quote
                        @ '' not found in dataset. Available fields: ''
                        @ join '', '' (map name fs)))"
    by (simp add: resolve_id_explicit resolve_name_explicit)
  have b: "wanted \<noteq> [] \<and> wanted \<in> set (map name fs) \<longrightarrow>
            (\<exists>fs'. resolve_id_field (Some wanted) hint fs = Inr fs'
                 \<and> map name fs' = map name fs
                 \<and> (\<forall>f \<in> set fs'. isId f = (name f = wanted)))
          \<and> (\<exists>fs'. resolve_name_field (Some wanted) hint fs = Inr fs'
                 \<and> map name fs' = map name fs
                 \<and> (\<forall>f \<in> set fs'. isName f = (name f = wanted)))"
    by (auto simp: resolve_id_explicit resolve_name_explicit comp_def)
  have c: "\<not> truthy specified \<and> hint \<notin> Some ` set (map name fs) \<longrightarrow>
            resolve_id_field specified hint fs =
              Inl (ResolutionError
                     (''No ID field specified and could not auto-detect one. ''
                        @ ''Use --id-field to specify which field to use as ID.''))
          \<and> resolve_name_field specified hint fs =
              Inl (ResolutionError
                     (''No Name field specified and could not auto-detect one. ''
                        @ ''Use --name-field to specify which field to use as Name.''))"
    using find_hint_None[of hint fs]
    by (simp add: resolve_id_field_def resolve_name_field_def Let_def)
  have d: "\<forall>e. resolve_id_field (specifiedIdField st) hintId (state_fields st) = Inl e \<longrightarrow>
               pull_resolve hintId hintName st = Inl e"
    by (simp add: pull_resolve_def)
  have e: "\<forall>fs1 e. resolve_id_field (specifiedIdField st) hintId (state_fields st) = Inr fs1
                  \<and> resolve_name_field (specifiedNameField st) hintName fs1 = Inl e \<longrightarrow>
               pull_resolve hintId hintName st = Inl e"
    by (simp add: pull_resolve_def)
  have f: "\<forall>st'. pull_resolve hintId hintName st = Inr st' \<and> truthy (specifiedIdField st) \<longrightarrow>
               (\<forall>f \<in> set (state_fields st'). isId f = (name f = the (specifiedIdField st)))"
    using pull_resolve_id_flags by blast
  have g: "\<forall>st'. pull_resolve hintId hintName st = Inr st' \<and> truthy (specifiedNameField st) \<longrightarrow>
               (\<forall>f \<in> set (state_fields st'). isName f = (name f = the (specifiedNameField st)))"
    using pull_resolve_name_flags by blast
  from a b c d e f g show ?thesis by blast
qed

theorem id_name_resolution_policy_witness:
  "resolve_id_field (Some ''code'') None catalog_fields
     = Inr [\<lparr>name = ''code'', dataType = Text, sampleValues = [''us''],
             isId = True, isName = False, isIncluded = True\<rparr>,
            \<lparr>name = ''title'', dataType = Text, sampleValues = [''United States''],
             isId = False, isName = False, isIncluded = True\<rparr>]
   \<and> resolve_id_field (Some ''missing'') (Some ''code'') catalog_fields
     = Inl (FieldNotFoundError
              ''Specified ID field 'missing' not found in dataset. Available fields: code, title'')
   \<and> resolve_name_field None (Some ''label'') catalog_fields
     = Inl (ResolutionError
              (''No Name field specified and could not auto-detect one. ''
                 @ ''Use --name-field to specify which field to use as Name.''))"
  using id_name_resolution_policy
          [of "''code''" catalog_fields None None example_state None None]
        id_name_resolution_policy
          [of "''missing''" catalog_fields "Some ''code''" None example_state None None]
        id_name_resolution_policy
          [of "''x''" catalog_fields "Some ''label''" None example_state None None]
  by (simp add: catalog_fields_def resolve_id_field_def resolve_name_field_def quote_def)

subsection \<open>Type inference on single values\<close>

text \<open>
  Claim C4. Type inference returns Date for the string "2024-01-15" (on a host whose
  \<^verbatim>\<open>Date.parse\<close> reads that ISO date, as the language standard requires), Text for
  the string "hello", Number for the number 42, Boolean for true, List for the array
  [1,2], and Unknown for both the empty object and null.
\<close>

theorem determineDataType_examples:
  assumes "Date_parse_ok h ''2024-01-15''"
  shows "determineDataType h (Val (JStr ''2024-01-15'')) = Date
       \<and> determineDataType h (Val (JStr ''hello'')) = Text
       \<and> determineDataType h (Val (JNum 42)) = Number
       \<and> determineDataType h (Val (JBool True)) = Boolean
       \<and> determineDataType h (Val (JArr [JNum 1, JNum 2])) = List
       \<and> determineDataType h (Val (JObj [])) = Unknown
       \<and> determineDataType h (Val JNull) = Unknown"
  using assms by (simp add: is_digit_def)

theorem determineDataType_examples_witness:
  "determineDataType \<lparr>JSON_parse = (\<lambda>s. None), Date_parse_ok = (\<lambda>s. True)\<rparr>
     (Val (JStr ''2024-01-15'')) = Date
   \<and> determineDataType \<lparr>JSON_parse = (\<lambda>s. None), Date_parse_ok = (\<lambda>s. True)\<rparr>
       (Val (JArr [JNum 1, JNum 2])) = List"
  using determineDataType_examples
          [of "\<lparr>JSON_parse = (\<lambda>s. None), Date_parse_ok = (\<lambda>s. True)\<rparr>"]
  by simp

subsection \<open>Field discovery\<close>

text \<open>
  Claim C5. On a non-empty array of plain objects the loop of discovery ends with a
  dictionary that has exactly one field per distinct key of the records, in the order in
  which the keys are first seen; when some record has a key, discovery succeeds and the
  dictionary is the field list of the state.
\<close>

theorem discovery_first_seen:
  assumes "jsonContent st = Some content" and "content \<noteq> []"
    and "JSON_parse h content = Some (JArr items)"
    and "items \<noteq> []" and "list_all is_plain_object items"
  shows "\<exists>d. discover h items 0 [] = Inr d
           \<and> map name d = first_seen (all_keys items)
           \<and> distinct (map name d)
           \<and> (all_keys items \<noteq> [] \<longrightarrow>
                (\<exists>st'. validateAndProcessJson h st = Inr st' \<and> state_fields st' = d))"
proof -
  let ?d = "run h (visits items) []"
  have 1: "discover h items 0 [] = Inr ?d"
    using assms(5) by (rule discover_objects)
  have 2: "map name ?d = first_seen (all_keys items)"
    by (simp add: names_run all_keys_visits)
  have 3: "distinct (map name ?d)"
    by (simp add: names_run)
  have 4: "all_keys items \<noteq> [] \<longrightarrow>
            (\<exists>st'. validateAndProcessJson h st = Inr st' \<and> state_fields st' = ?d)"
    by (simp add: validate_objects[OF assms])
  from 1 2 3 4 show ?thesis by blast
qed

theorem discovery_first_seen_witness:
  "\<exists>d. discover example_host (map JObj example_records) 0 [] = Inr d
      \<and> map name d = [''id'', ''name'', ''pop'']
      \<and> (\<exists>st'. validateAndProcessJson example_host example_state = Inr st'
               \<and> state_fields st' = d)"
  using discovery_first_seen
          [of example_state "''countries''" example_host "map JObj example_records"]
  by (simp add: example_state_def example_host_def example_records_def is_plain_object_def
        all_keys_def first_seen_def)

text \<open>
  Claim C6 says that discovery fails with a validation error on a parsed value that is no
  array, on an empty array, on an element that is no plain object and on records without
  keys, and that the import is then aborted by the callers. On each of these inputs the
  report of the failure throws a \<^verbatim>\<open>ReferenceError\<close> instead: no validation error is
  printed, \<^verbatim>\<open>false\<close> is not returned, and the error of the callers is not thrown.
\<close>

theorem validation_failures_throw_reference_error:
  "validateAndProcessJson broken_host example_state = Inl ReferenceError
   \<and> validated broken_host example_state = Inl ReferenceError
   \<and> validateAndProcessJson
        \<lparr>JSON_parse = (\<lambda>content. Some (JObj [])), Date_parse_ok = (\<lambda>s. True)\<rparr>
        example_state = Inl ReferenceError
   \<and> validateAndProcessJson
        \<lparr>JSON_parse = (\<lambda>content. Some (JArr [])), Date_parse_ok = (\<lambda>s. True)\<rparr>
        example_state = Inl ReferenceError
   \<and> validateAndProcessJson
        \<lparr>JSON_parse = (\<lambda>content. Some (JArr [JObj []])), Date_parse_ok = (\<lambda>s. True)\<rparr>
        example_state = Inl ReferenceError"
  by (simp add: broken_host_def example_state_def validateAndProcessJson_def validated_def
        try_block_def printError_def process_item_def)

text \<open>
  Claim C7. The type of every discovered field is the first type other than Unknown that
  its values infer, in the order the records are read, and Unknown when there is none. A
  later sighting changes the type of a field only from Unknown to a type that is not
  Unknown.
\<close>

theorem field_type_first_concrete:
  assumes "jsonContent st = Some content" and "content \<noteq> []"
    and "JSON_parse h content = Some (JArr items)"
    and "items \<noteq> []" and "list_all is_plain_object items"
    and "all_keys items \<noteq> []"
  shows "(\<exists>st'. validateAndProcessJson h st = Inr st'
            \<and> (\<forall>f \<in> set (state_fields st').
                  dataType f = first_concrete (map (determineDataType h) (sightings (name f) items))))
       \<and> (\<forall>d key g item.
            find (\<lambda>f. name f = key) d = Some g \<longrightarrow>
            (\<exists>g'. find (\<lambda>f. name f = key) (process_key h item key d) = Some g'
                \<and> dataType g' =
                    (if dataType g = Unknown \<and> determineDataType h (js_get item key) \<noteq> Unknown
                     then determineDataType h (js_get item key) else dataType g)))"
proof -
  have a: "\<exists>st'. validateAndProcessJson h st = Inr st'
            \<and> (\<forall>f \<in> set (state_fields st').
                  dataType f = first_concrete (map (determineDataType h) (sightings (name f) items)))"
    using discovered_field_ok[of _ h items] assms(6)
    by (simp add: validate_objects[OF assms(1-5)] field_ok_def)
  have b: "\<exists>g'. find (\<lambda>f. name f = key) (process_key h item key d) = Some g'
                \<and> dataType g' =
                    (if dataType g = Unknown \<and> determineDataType h (js_get item key) \<noteq> Unknown
                     then determineDataType h (js_get item key) else dataType g)"
    if "find (\<lambda>f. name f = key) d = Some g" for d key g item
  proof -
    from that have "lookup d key = Some g" by (simp add: lookup_def)
    then have "lookup (process_key h item key d) key = Some (step h (js_get item key) g)"
      by (simp add: lookup_process_key)
    moreover have "dataType (step h (js_get item key) g) =
        (if dataType g = Unknown \<and> determineDataType h (js_get item key) \<noteq> Unknown
         then determineDataType h (js_get item key) else dataType g)"
      by (simp add: step_def upgrade_type_def collect_sample_def Let_def split: option.splits)
    ultimately show ?thesis by (simp add: lookup_def)
  qed
  from a b show ?thesis by blast
qed

theorem field_type_first_concrete_witness:
  "\<exists>st'. validateAndProcessJson mixed_host example_state = Inr st'
       \<and> map dataType (state_fields st') = [Text, Number, Text]
       \<and> (\<forall>f \<in> set (state_fields st').
             dataType f = first_concrete (map (determineDataType mixed_host)
                                              (sightings (name f) mixed_items)))"
  using field_type_first_concrete
          [of example_state "''countries''" mixed_host mixed_items]
  by (simp add: mixed_eval)
     (simp add: example_state_def mixed_host_def mixed_items_def mixed_discovered_def
        is_plain_object_def all_keys_def)

text \<open>
  Claim C8. The samples of every discovered field are at most three, pairwise different
  and non-empty; they are the first three different non-empty projections of the values
  of the field, in the order the values are seen, so each is the projection of a value
  of a record. No value seen is \<^verbatim>\<open>undefined\<close>, which would project to nothing; null
  projects to \<open>null\<close>, a string of more than 30 characters to its first 27 followed
  by three dots, any other string to itself, the booleans to \<open>true\<close> and \<open>false\<close>,
  a number of the model to its decimal numeral (a minus sign for a negative number, then
  the digits of its magnitude without a leading zero), an array to \<open>[...]\<close> and an
  object to \<open>{...}\<close>.
\<close>

theorem sample_values_policy:
  assumes "jsonContent st = Some content" and "content \<noteq> []"
    and "JSON_parse h content = Some (JArr items)"
    and "items \<noteq> []" and "list_all is_plain_object items"
    and "all_keys items \<noteq> []"
  shows "(\<exists>st'. validateAndProcessJson h st = Inr st'
            \<and> (\<forall>f \<in> set (state_fields st').
                  length (sampleValues f) \<le> 3 \<and> distinct (sampleValues f)
                  \<and> [] \<notin> set (sampleValues f)
                  \<and> sampleValues f = take 3 (first_seen (projections (sightings (name f) items)))
                  \<and> (\<forall>s \<in> set (sampleValues f).
                        \<exists>v \<in> set (sightings (name f) items). getSampleValue v = Some s)))
       \<and> (\<forall>key. \<forall>v \<in> set (sightings key items). v \<noteq> Undefined)
       \<and> getSampleValue Undefined = None
       \<and> getSampleValue (Val JNull) = Some ''null''
       \<and> (\<forall>s. getSampleValue (Val (JStr s)) =
                 Some (if 30 < length s then take 27 s @ ''...'' else s))
       \<and> getSampleValue (Val (JBool True)) = Some ''true''
       \<and> getSampleValue (Val (JBool False)) = Some ''false''
       \<and> getSampleValue (Val (JNum 42)) = Some ''42''
       \<and> getSampleValue (Val (JNum 0)) = Some ''0''
       \<and> getSampleValue (Val (JNum (- 1500))) = Some ''-1500''
       \<and> (\<forall>n. \<bar>n\<bar> < 2 ^ 53 \<longrightarrow>
              (\<exists>ds. getSampleValue (Val (JNum n)) = Some ((if n < 0 then ''-'' else []) @ ds)
                  \<and> ds \<noteq> [] \<and> list_all is_digit ds
                  \<and> (n \<noteq> 0 \<longrightarrow> hd ds \<noteq> CHR ''0'') \<and> (n = 0 \<longrightarrow> ds = ''0'')
                  \<and> decimal_value ds = nat \<bar>n\<bar>))
       \<and> (\<forall>xs. getSampleValue (Val (JArr xs)) = Some ''[...]'')
       \<and> (\<forall>kvs. getSampleValue (Val (JObj kvs)) = Some ''{...}'')"
proof -
  let ?st = "st\<lparr>parsedJson := Some (map the_object items), itemCount := length items,
                  state_fields := run h (visits items) []\<rparr>"
  have v: "validateAndProcessJson h st = Inr ?st"
    using assms(6) by (simp add: validate_objects[OF assms(1-5)])
  have "\<forall>f \<in> set (state_fields ?st).
                  length (sampleValues f) \<le> 3 \<and> distinct (sampleValues f)
                  \<and> [] \<notin> set (sampleValues f)
                  \<and> sampleValues f = take 3 (first_seen (projections (sightings (name f) items)))
                  \<and> (\<forall>s \<in> set (sampleValues f).
                        \<exists>v \<in> set (sightings (name f) items). getSampleValue v = Some s)"
  proof
    fix f assume "f \<in> set (state_fields ?st)"
    then have "f \<in> set (run h (visits items) [])" by simp
    from field_ok_samples[OF discovered_field_ok[OF this]]
    show "length (sampleValues f) \<le> 3 \<and> distinct (sampleValues f)
                  \<and> [] \<notin> set (sampleValues f)
                  \<and> sampleValues f = take 3 (first_seen (projections (sightings (name f) items)))
                  \<and> (\<forall>s \<in> set (sampleValues f).
                        \<exists>v \<in> set (sightings (name f) items). getSampleValue v = Some s)" .
  qed
  with v have a: "\<exists>st'. validateAndProcessJson h st = Inr st'
            \<and> (\<forall>f \<in> set (state_fields st').
                  length (sampleValues f) \<le> 3 \<and> distinct (sampleValues f)
                  \<and> [] \<notin> set (sampleValues f)
                  \<and> sampleValues f = take 3 (first_seen (projections (sightings (name f) items)))
                  \<and> (\<forall>s \<in> set (sampleValues f).
                        \<exists>v \<in> set (sightings (name f) items). getSampleValue v = Some s))"
    by blast
  have b: "\<forall>key. \<forall>v \<in> set (sightings key items). v \<noteq> Undefined"
    using sightings_own by blast
  have c: "getSampleValue (Val (JBool True)) = Some ''true''"
    "getSampleValue (Val (JBool False)) = Some ''false''"
    "getSampleValue (Val (JNum 42)) = Some ''42''"
    "getSampleValue (Val (JNum 0)) = Some ''0''"
    "getSampleValue (Val (JNum (- 1500))) = Some ''-1500''"
    by (simp_all add: bool_to_string_def int_to_string_def nat_to_string.simps)
  have d: "\<forall>n. \<bar>n\<bar> < 2 ^ 53 \<longrightarrow>
              (\<exists>ds. getSampleValue (Val (JNum n)) = Some ((if n < 0 then ''-'' else []) @ ds)
                  \<and> ds \<noteq> [] \<and> list_all is_digit ds
                  \<and> (n \<noteq> 0 \<longrightarrow> hd ds \<noteq> CHR ''0'') \<and> (n = 0 \<longrightarrow> ds = ''0'')
                  \<and> decimal_value ds = nat \<bar>n\<bar>)"
    using int_to_string_decimal by simp
  from a b c d show ?thesis by simp
qed

theorem sample_values_policy_witness:
  "\<exists>st'. validateAndProcessJson mixed_host example_state = Inr st'
       \<and> map sampleValues (state_fields st')
           = [[''null'', ''x'', ''7''], [''1'', ''y''], [''p'', ''q'', ''r'']]
       \<and> (\<forall>f \<in> set (state_fields st').
             sampleValues f = take 3 (first_seen (projections (sightings (name f) mixed_items))))"
  using sample_values_policy
          [of example_state "''countries''" mixed_host mixed_items]
  by (simp add: mixed_eval)
     (simp add: example_state_def mixed_host_def mixed_items_def mixed_discovered_def
        is_plain_object_def all_keys_def)

subsection \<open>Inherited names and the count of records\<close>

text \<open>
  Claim C9. A record whose ID is a name that every object inherits from
  \<^verbatim>\<open>Object.prototype\<close> is skipped by the duplicate check and counted as skipped,
  at both call sites, even as the first record, when the payload owns no key at all.
\<close>

theorem inherited_id_skipped_as_duplicate:
  assumes "inherited_key key" and "idName \<noteq> nameName"
  shows "payload_truthy [] key \<and> \<not> has_own ([] :: payload) key
       \<and> wizard_items idName nameName fs [[(idName, JStr key), (nameName, JStr nm)]]
           = Inr ([], 1)
       \<and> pull_items idName nameName fs [[(idName, JStr key), (nameName, JStr nm)]]
           = Inr ([], 1)"
proof -
  from assms(1) have ne: "key \<noteq> []"
    by (auto simp: inherited_key_def object_prototype_functions_def)
  from assms ne show ?thesis
    by (simp add: pull_items_eq wizard_items_def wizard_item_def Let_def js_get_def nullish_def
          payload_truthy_def has_own_def)
qed

theorem inherited_id_skipped_as_duplicate_witness:
  "wizard_items ''id'' ''name'' example_fields
      [[(''id'', JStr ''constructor''), (''name'', JStr ''x'')]] = Inr ([], 1)
   \<and> wizard_items ''id'' ''name'' example_fields
      [[(''id'', JStr ''toString''), (''name'', JStr ''x'')]] = Inr ([], 1)
   \<and> pull_items ''id'' ''name'' example_fields
      [[(''id'', JStr ''__proto__''), (''name'', JStr ''x'')]] = Inr ([], 1)
   \<and> \<not> has_own ([] :: payload) ''constructor''"
  using inherited_id_skipped_as_duplicate
          [of "''constructor''" "''id''" "''name''" example_fields "''x''"]
        inherited_id_skipped_as_duplicate
          [of "''toString''" "''id''" "''name''" example_fields "''x''"]
        inherited_id_skipped_as_duplicate
          [of "''__proto__''" "''id''" "''name''" example_fields "''x''"]
  by (simp add: inherited_key_def object_prototype_functions_def)

text \<open>
  Claim C10. When the loop over the records has finished, the entries of the payload,
  which have pairwise different keys, and the skipped count add up to the number of
  records, at both call sites. The loop finishes whenever the ID and the Name value of
  every record convert to a string.
\<close>

theorem payload_conserves_records:
  shows "(wizard_items i n fs records = Inr (p, k) \<longrightarrow>
            length p + k = length records \<and> distinct (map fst p))
       \<and> (pull_items i n fs records = Inr (p, k) \<longrightarrow>
            length p + k = length records \<and> distinct (map fst p))
       \<and> (list_all (\<lambda>r. js_String (js_get r i) \<noteq> None \<and> js_String (js_get r n) \<noteq> None) records
            \<longrightarrow> (\<exists>p' k'. wizard_items i n fs records = Inr (p', k'))
              \<and> (\<exists>p' k'. pull_items i n fs records = Inr (p', k')))"
  using wizard_items_conserve wizard_items_total
  by (simp add: pull_items_eq)

theorem payload_conserves_records_witness:
  "wizard_items ''id'' ''name'' example_fields example_records = Inr (example_payload, 2)
   \<and> pull_items ''id'' ''name'' example_fields example_records = Inr (example_payload, 2)
   \<and> length example_payload + 2 = length example_records"
  using payload_conserves_records
          [of "''id''" "''name''" example_fields example_records example_payload 2]
  by (simp add: example_wizard example_pull)

end
